theory Spec2Isabelle
  imports Main "HOL-Library.Word"
begin

unbundle bit_operations_syntax

section \<open>Machine types\<close>

text \<open>
  The renderer is written against OpenGL 4.5 on a 64-bit target: \<open>GLuint\<close>, \<open>GLenum\<close> and
  \<open>GLsizei\<close> are 32 bits wide, \<open>GLintptr\<close>, \<open>GLsizeiptr\<close> (both \<open>ptrdiff_t\<close>),
  \<open>size_t\<close> and data pointers are 64 bits wide. Words carry no sign: an operation that
  mixes \<open>size_t\<close> with \<open>GLsizeiptr\<close> is carried out unsigned by the usual arithmetic
  conversions, which is what \<open>div\<close>, \<open>mod\<close> and \<open>*\<close> on words compute. A pointer is its
  address, \<open>nullptr\<close> is address 0 and pointer arithmetic is arithmetic on addresses.
\<close>

type_synonym GLuint = "32 word"
type_synonym GLenum = "32 word"
type_synonym GLintptr = "64 word"
type_synonym GLsizeiptr = "64 word"
type_synonym size_t = "64 word"
type_synonym pointer = "64 word"

text \<open>
  \<open>assert\<close> from \<open><cassert>\<close> aborts the program when its argument is false, unless the
  translation unit is compiled with \<open>NDEBUG\<close>, in which case it expands to nothing. The
  flag \<open>ndebug\<close> is a parameter of every function whose source contains an \<open>assert\<close>.
\<close>

datatype error = AssertionFailed

definition assert :: "bool \<Rightarrow> bool \<Rightarrow> error + unit" where
  "assert ndebug cond = (if ndebug \<or> cond then Inr () else Inl AssertionFailed)"


section \<open>PersistentMappedBuffer.hpp\<close>

subsection \<open>ModifiedRange\<close>

record ModifiedRange =
  offset :: GLintptr
  length_bytes :: GLsizeiptr

text \<open>
  The two-argument constructor takes the length as a \<open>GLsizei\<close>: the value is narrowed to
  32 bits and sign-extended again when it is stored in the \<open>GLsizeiptr\<close> member.
\<close>

definition ModifiedRange_ctor :: "GLintptr \<Rightarrow> GLsizeiptr \<Rightarrow> ModifiedRange" where
  "ModifiedRange_ctor off len =
     \<lparr>offset = off, length_bytes = scast (ucast len :: 32 word)\<rparr>"

subsection \<open>Buffer (Buffer.cpp)\<close>

text \<open>
  A \<open>Buffer\<close> holds one OpenGL name, 0 when it is not initialised. \<open>Buffer::initialise\<close>
  cleans, asks \<open>glGenBuffers\<close> for a name and reports whether the name is non-zero; the
  name the driver hands out is the parameter \<open>generated\<close>.
\<close>

type_synonym Buffer = GLuint

definition Buffer_isInitialised :: "Buffer \<Rightarrow> bool" where
  "Buffer_isInitialised b = (b \<noteq> 0)"

definition Buffer_clean :: "Buffer \<Rightarrow> Buffer" where
  "Buffer_clean b = (if Buffer_isInitialised b then 0 else b)"

definition Buffer_initialise :: "GLuint \<Rightarrow> Buffer \<Rightarrow> bool \<times> Buffer" where
  "Buffer_initialise generated b = (let b' = Buffer_clean b in (generated \<noteq> 0, generated))"

subsection \<open>The partitioned buffer\<close>

record PersistentMappedBuffer =
  m_buffer :: Buffer
  m_mapping :: pointer
  m_size :: GLsizeiptr
  m_flushable :: bool

definition PersistentMappedBuffer_default :: PersistentMappedBuffer where
  "PersistentMappedBuffer_default =
     \<lparr>m_buffer = 0, m_mapping = 0, m_size = 0, m_flushable = False\<rparr>"

definition isInitialised :: "PersistentMappedBuffer \<Rightarrow> bool" where
  "isInitialised b = Buffer_isInitialised (m_buffer b)"

text \<open>The template parameter \<open>Partitions\<close> is the first argument of every member function.\<close>

definition partitionSize :: "size_t \<Rightarrow> PersistentMappedBuffer \<Rightarrow> GLsizeiptr" where
  "partitionSize Partitions b = m_size b div Partitions"

definition partitionOffset :: "size_t \<Rightarrow> PersistentMappedBuffer \<Rightarrow> size_t \<Rightarrow> GLintptr" where
  "partitionOffset Partitions b index = index * partitionSize Partitions b"

definition pointer :: "bool \<Rightarrow> size_t \<Rightarrow> PersistentMappedBuffer \<Rightarrow> size_t \<Rightarrow> error + pointer" where
  "pointer ndebug Partitions b part =
     (let ptr = m_mapping b + partitionOffset Partitions b part in
      case assert ndebug (ptr \<noteq> 0) of
        Inl e \<Rightarrow> Inl e
      | Inr _ \<Rightarrow> Inr (if part < Partitions then ptr else m_mapping b))"

text \<open>The access bits of \<open>glMapNamedBufferRange\<close>, with the values the OpenGL headers give them.\<close>

definition GL_MAP_READ_BIT :: GLenum where "GL_MAP_READ_BIT = 0x0001"
definition GL_MAP_WRITE_BIT :: GLenum where "GL_MAP_WRITE_BIT = 0x0002"
definition GL_MAP_FLUSH_EXPLICIT_BIT :: GLenum where "GL_MAP_FLUSH_EXPLICIT_BIT = 0x0010"
definition GL_MAP_PERSISTENT_BIT :: GLenum where "GL_MAP_PERSISTENT_BIT = 0x0040"
definition GL_MAP_COHERENT_BIT :: GLenum where "GL_MAP_COHERENT_BIT = 0x0080"

definition getAccessFlags :: "bool \<Rightarrow> bool \<Rightarrow> bool \<Rightarrow> GLenum" where
  "getAccessFlags read write coherent =
     (let access = GL_MAP_PERSISTENT_BIT;
          access = (if read then access OR GL_MAP_READ_BIT else access);
          access = (if write then access OR GL_MAP_WRITE_BIT else access);
          access = (if coherent then access OR GL_MAP_COHERENT_BIT
                    else if write then access OR GL_MAP_FLUSH_EXPLICIT_BIT
                    else access)
      in access)"

text \<open>
  The state of the object is its four members. Calls that only change the state of the
  driver (allocating storage, unmapping or deleting the buffer that is replaced) leave
  it as it is.
\<close>

text \<open>
  What the driver answers during one call of \<open>initialise\<close>: the name produced by
  \<open>glGenBuffers\<close>, the size reported by \<open>Buffer::immutablyFillWith\<close> (data overload only)
  and the address returned by \<open>Buffer::mapRange\<close> (null when storage could not be
  allocated or mapped). \<open>Buffer::allocateImmutableStorage\<close> returns nothing.
\<close>

record driver =
  generated :: GLuint
  filled :: GLsizeiptr
  mapped :: pointer

definition initialise_size ::
  "size_t \<Rightarrow> driver \<Rightarrow> GLintptr \<Rightarrow> bool \<Rightarrow> bool \<Rightarrow> PersistentMappedBuffer
     \<Rightarrow> bool \<times> PersistentMappedBuffer" where
  "initialise_size Partitions gl sz read coherent this =
     (if sz = 0 then (False, this)
      else
        let (ok, buffer) = Buffer_initialise (generated gl) 0 in
        if \<not> ok then (False, this)
        else
          let access = getAccessFlags read True coherent;
              storageFlags = access AND (NOT GL_MAP_FLUSH_EXPLICIT_BIT);
              totalSize = sz * Partitions;
              ptr = mapped gl
          in
          if ptr = 0 then (False, this)
          else (True, \<lparr>m_buffer = buffer, m_mapping = ptr, m_size = totalSize,
                        m_flushable = ((access AND GL_MAP_FLUSH_EXPLICIT_BIT) > 0)\<rparr>))"

definition initialise_data ::
  "size_t \<Rightarrow> driver \<Rightarrow> bool \<Rightarrow> bool \<Rightarrow> bool \<Rightarrow> PersistentMappedBuffer
     \<Rightarrow> bool \<times> PersistentMappedBuffer" where
  "initialise_data Partitions gl read write coherent this =
     (if \<not> read \<and> \<not> write then (False, this)
      else
        let (ok, buffer) = Buffer_initialise (generated gl) 0 in
        if \<not> ok then (False, this)
        else
          let access = getAccessFlags read write coherent;
              storageFlags = access AND (NOT GL_MAP_FLUSH_EXPLICIT_BIT);
              sz = filled gl
          in
          if sz mod Partitions \<noteq> 0 \<or> sz = 0 then (False, this)
          else
            let ptr = mapped gl in
            if ptr = 0 then (False, this)
            else (True, \<lparr>m_buffer = buffer, m_mapping = ptr, m_size = sz,
                          m_flushable = ((access AND GL_MAP_FLUSH_EXPLICIT_BIT) > 0)\<rparr>))"

definition clean :: "PersistentMappedBuffer \<Rightarrow> PersistentMappedBuffer" where
  "clean this =
     (if isInitialised this
      then \<lparr>m_buffer = Buffer_clean (m_buffer this), m_mapping = 0, m_size = 0,
            m_flushable = False\<rparr>
      else this)"

text \<open>
  \<open>notifyModifiedDataRange\<close> calls \<open>glFlushMappedNamedBufferRange\<close> when the buffer is
  flushable; the model returns the flush calls it issues as (name, offset, length).
\<close>

definition notifyModifiedDataRange ::
  "PersistentMappedBuffer \<Rightarrow> ModifiedRange \<Rightarrow> (GLuint \<times> GLintptr \<times> GLsizeiptr) list" where
  "notifyModifiedDataRange this rng =
     (if m_flushable this then [(m_buffer this, offset rng, length_bytes rng)] else [])"

definition notifyModifiedDataRange_partition ::
  "size_t \<Rightarrow> PersistentMappedBuffer \<Rightarrow> size_t \<Rightarrow> ModifiedRange
     \<Rightarrow> (GLuint \<times> GLintptr \<times> GLsizeiptr) list" where
  "notifyModifiedDataRange_partition Partitions this part rng =
     (if m_flushable this
      then [(m_buffer this, partitionOffset Partitions this part + offset rng,
             length_bytes rng)]
      else [])"

text \<open>The bytes a flush call covers.\<close>

definition flushed_bytes :: "(GLuint \<times> GLintptr \<times> GLsizeiptr) \<Rightarrow> nat set" where
  "flushed_bytes call = (case call of (name, off, len) \<Rightarrow> {unat off ..< unat off + unat len})"


section \<open>Collaborators of the renderer\<close>

subsection \<open>Types.hpp\<close>

text \<open>
  \<open>Rendering/Renderer/Types.hpp\<close> is not part of the sources at hand. The constants and
  element sizes the renderer takes from it are parameters: the partition count
  \<open>multiBuffering\<close> (also the template argument of \<open>types::PMB\<close> and the length of
  the array of sync objects), the number of light-volume draw commands and the sizes of
  the three element types streamed per frame.
\<close>

record types =
  multiBuffering :: size_t
  lightVolumeCount :: size_t
  sizeof_MultiDrawElementsIndirectCommand :: size_t
  sizeof_ModelTransform :: size_t
  sizeof_MaterialID :: size_t

subsection \<open>Sync\<close>

text \<open>
  Modelled from the spec: \<open>Rendering/Objects/Sync.hpp\<close> is missing; the fence follows
  section 4.2 of the specification. A fence is unarmed, armed (submitted, not yet reached
  by the device) or signaled. Whether the device has reached the fence at the moment of a
  call is an input of that call.
\<close>

datatype Sync = Unarmed | Armed | Signaled

definition Sync_isInitialised :: "Sync \<Rightarrow> bool" where
  "Sync_isInitialised s = (s \<noteq> Unarmed)"

definition device_progress :: "bool \<Rightarrow> Sync \<Rightarrow> Sync" where
  "device_progress reached s = (if s = Armed \<and> reached then Signaled else s)"

definition checkIfSignalled :: "bool \<Rightarrow> Sync \<Rightarrow> bool \<times> Sync" where
  "checkIfSignalled reached s =
     (let s' = device_progress reached s in (s' \<noteq> Armed, s'))"

definition waitForSignal :: "bool \<Rightarrow> bool \<Rightarrow> nat \<Rightarrow> Sync \<Rightarrow> bool \<times> Sync" where
  "waitForSignal reached forceFlush timeout s =
     (let s' = device_progress reached s in (s' \<noteq> Armed, s'))"

definition Sync_initialise :: "Sync \<Rightarrow> bool \<times> Sync" where
  "Sync_initialise s = (if s = Armed then (False, s) else (True, Armed))"

definition Sync_clean :: "Sync \<Rightarrow> Sync" where
  "Sync_clean s = Unarmed"

text \<open>What the device does during one frame, as seen by the three calls on the fence.\<close>

record device =
  signalled_at_poll :: bool
  signalled_in_wait :: bool
  signalled_at_arm :: bool

subsection \<open>Scene\<close>

text \<open>
  The scene library is external. Identifiers are numbers; the transformation matrix of an
  instance is carried as an opaque value of type \<open>'m\<close>, lights as opaque values.
\<close>

type_synonym MeshId = nat
type_synonym InstanceId = nat
type_synonym MaterialId = nat

record 'm Instance =
  isStatic :: bool
  getMeshId :: MeshId
  getMaterialId :: MaterialId
  getTransformationMatrix :: 'm

record ('m, 'pl, 'sl) Context =
  getAllInstances :: "'m Instance list"
  getInstanceById :: "InstanceId \<Rightarrow> 'm Instance"
  getInstancesByMeshId :: "MeshId \<Rightarrow> InstanceId list"
  getAllPointLights :: "'pl list"
  getAllSpotLights :: "'sl list"

subsection \<open>Mesh.hpp and the draw-command containers\<close>

record Mesh =
  verticesIndex :: GLuint
  elementsIndex :: GLuint
  elementCount :: GLuint

definition Mesh_default :: Mesh where
  "Mesh_default = \<lparr>verticesIndex = 0, elementsIndex = 0, elementCount = 0\<rparr>"

text \<open>
  \<open>MultiDrawElementsIndirectCommand\<close> is brace-initialised in the renderer with element
  count, instance count, first element, first vertex and base instance, in that order.
\<close>

record MultiDrawElementsIndirectCommand =
  cmd_elementCount :: GLuint
  cmd_instanceCount :: GLuint
  cmd_elementOffset :: GLuint
  cmd_vertexOffset :: GLuint
  cmd_baseInstance :: GLuint

text \<open>\<open>MultiDrawCommands<types::PMB>\<close>: the members the renderer touches.\<close>

record MultiDrawCommands =
  buffer :: PersistentMappedBuffer
  start :: GLintptr
  capacity :: GLuint
  dc_count :: GLuint

definition MultiDrawCommands_default :: MultiDrawCommands where
  "MultiDrawCommands_default =
     \<lparr>buffer = PersistentMappedBuffer_default, start = 0, capacity = 0, dc_count = 0\<rparr>"

record Resolution =
  internalWidth :: int
  internalHeight :: int
  displayWidth :: int
  displayHeight :: int


section \<open>Renderer.hpp, Renderer.cpp\<close>

subsection \<open>State\<close>

record MeshInstances =
  mesh :: Mesh
  instances :: "InstanceId list"

text \<open>
  The members of \<open>Renderer\<close> that \<open>Renderer.cpp\<close> reads or writes. \<open>m_scene\<close> is a
  pointer: the member holds the address (\<open>None\<close> for \<open>nullptr\<close>) and the functions that
  dereference it take the \<open>Context\<close> it points to. \<open>Programs\<close>, \<open>Materials\<close>,
  \<open>Uniforms\<close>, \<open>Geometry\<close>, \<open>GeometryBuffer\<close> and \<open>LightBuffer\<close> are classes whose
  sources are missing; each is represented by whether it is initialised.
\<close>

record Renderer =
  m_scene :: "nat option"
  m_uniforms :: bool
  m_programs :: bool
  m_dynamics :: "MeshInstances list"
  m_materials :: bool
  m_objectDrawing :: MultiDrawCommands
  m_objectMaterialIDs :: PersistentMappedBuffer
  m_objectTransforms :: PersistentMappedBuffer
  m_lightDrawing :: MultiDrawCommands
  m_lightTransforms :: PersistentMappedBuffer
  m_gbuffer :: bool
  m_lbuffer :: bool
  m_geometry :: bool
  m_resolution :: Resolution
  m_partition :: size_t
  m_syncs :: "Sync list"
  m_deferredRender :: bool
  m_multiThreaded :: bool
  m_pbs :: bool

text \<open>The default member initialisers of the class, for \<open>multiBuffering\<close> sync objects.\<close>

definition Renderer_default :: "types \<Rightarrow> Renderer" where
  "Renderer_default ty =
     \<lparr>m_scene = None, m_uniforms = False, m_programs = False, m_dynamics = [],
      m_materials = False, m_objectDrawing = MultiDrawCommands_default,
      m_objectMaterialIDs = PersistentMappedBuffer_default,
      m_objectTransforms = PersistentMappedBuffer_default,
      m_lightDrawing = MultiDrawCommands_default,
      m_lightTransforms = PersistentMappedBuffer_default,
      m_gbuffer = False, m_lbuffer = False, m_geometry = False,
      m_resolution = \<lparr>internalWidth = 0, internalHeight = 0, displayWidth = 0,
                      displayHeight = 0\<rparr>,
      m_partition = 0, m_syncs = replicate (unat (multiBuffering ty)) Unarmed,
      m_deferredRender = True, m_multiThreaded = True, m_pbs = True\<rparr>"

definition setThreadingMode :: "bool \<Rightarrow> Renderer \<Rightarrow> Renderer" where
  "setThreadingMode useMultipleThreads this = this\<lparr>m_multiThreaded := useMultipleThreads\<rparr>"

definition setRenderingMode :: "bool \<Rightarrow> Renderer \<Rightarrow> Renderer" where
  "setRenderingMode useDeferredRendering this = this\<lparr>m_deferredRender := useDeferredRendering\<rparr>"

subsection \<open>Builder steps\<close>

text \<open>
  Modelled from the spec: the \<open>initialise\<close> members of the missing classes report
  success as a boolean and leave the object in its prior state on failure (section 7).
  The outcome of each such call is an input.
\<close>

definition component_initialise :: "bool \<Rightarrow> bool \<Rightarrow> bool \<times> bool" where
  "component_initialise ok c = (ok, if ok then True else c)"

text \<open>
  The answers of the missing classes and of the driver during one call of
  \<open>Renderer::initialise\<close>, one per call site. The \<open>resize_\<close> answers belong to the
  rebuild that \<open>setInternalResolution\<close> triggers when both framebuffers exist already.
\<close>

record build_answers =
  shaders_ok :: bool
  programs_ok :: bool
  materials_ok :: bool
  objectDrawing_gl :: driver
  objectMaterialIDs_gl :: driver
  objectTransforms_gl :: driver
  lightDrawing_gl :: driver
  lightTransforms_gl :: driver
  geometry_ok :: bool
  resize_gbuffer_ok :: bool
  resize_lbuffer_ok :: bool
  resize_uniforms_ok :: bool
  gbuffer_ok :: bool
  lbuffer_ok :: bool
  uniforms_ok :: bool

definition buildPrograms :: "build_answers \<Rightarrow> Renderer \<Rightarrow> bool \<times> Renderer" where
  "buildPrograms ans this =
     (if \<not> shaders_ok ans then (False, this)
      else let (ok, p) = component_initialise (programs_ok ans) (m_programs this)
           in (ok, this\<lparr>m_programs := p\<rparr>))"

definition buildMaterials :: "build_answers \<Rightarrow> Renderer \<Rightarrow> bool \<times> Renderer" where
  "buildMaterials ans this =
     (let (ok, m) = component_initialise (materials_ok ans) (m_materials this)
      in (ok, this\<lparr>m_materials := m\<rparr>))"

definition buildDynamicObjectBuffers ::
  "types \<Rightarrow> build_answers \<Rightarrow> ('m, 'pl, 'sl) Context \<Rightarrow> Renderer \<Rightarrow> bool \<times> Renderer" where
  "buildDynamicObjectBuffers ty ans scene this =
     (let dynamic = filter (\<lambda>instance. \<not> isStatic instance) (getAllInstances scene);
          uniqueMeshes = remdups (map getMeshId dynamic);
          instanceCount = (of_nat (length dynamic) :: size_t);
          drawCommandSize = of_nat (length uniqueMeshes) * sizeof_MultiDrawElementsIndirectCommand ty;
          materialIDSize = instanceCount * sizeof_MaterialID ty;
          transformSize = instanceCount * sizeof_ModelTransform ty;
          (ok1, drawing) = initialise_size (multiBuffering ty) (objectDrawing_gl ans)
                             drawCommandSize False False (buffer (m_objectDrawing this));
          this1 = this\<lparr>m_objectDrawing := (m_objectDrawing this)\<lparr>buffer := drawing\<rparr>\<rparr>
      in
      if \<not> ok1 then (False, this1)
      else
        let (ok2, ids) = initialise_size (multiBuffering ty) (objectMaterialIDs_gl ans)
                           materialIDSize False False (m_objectMaterialIDs this1);
            this2 = this1\<lparr>m_objectMaterialIDs := ids\<rparr>
        in
        if \<not> ok2 then (False, this2)
        else
          let (ok3, transforms) = initialise_size (multiBuffering ty) (objectTransforms_gl ans)
                                    transformSize False False (m_objectTransforms this2);
              this3 = this2\<lparr>m_objectTransforms := transforms\<rparr>
          in
          if \<not> ok3 then (False, this3)
          else (True, this3\<lparr>m_objectDrawing := (m_objectDrawing this3)
                                \<lparr>capacity := of_nat (length uniqueMeshes), dc_count := 0\<rparr>\<rparr>))"

definition buildLightBuffers ::
  "types \<Rightarrow> build_answers \<Rightarrow> ('m, 'pl, 'sl) Context \<Rightarrow> Renderer \<Rightarrow> bool \<times> Renderer" where
  "buildLightBuffers ty ans scene this =
     (let lightCount = (of_nat (length (getAllPointLights scene))
                          + of_nat (length (getAllSpotLights scene)) + 1 :: size_t);
          transformSize = lightCount * sizeof_ModelTransform ty;
          drawCommandSize = lightVolumeCount ty * sizeof_MultiDrawElementsIndirectCommand ty;
          (ok1, drawing) = initialise_size (multiBuffering ty) (lightDrawing_gl ans)
                             drawCommandSize False False (buffer (m_lightDrawing this));
          this1 = this\<lparr>m_lightDrawing := (m_lightDrawing this)\<lparr>buffer := drawing\<rparr>\<rparr>
      in
      if \<not> ok1 then (False, this1)
      else
        let (ok2, transforms) = initialise_size (multiBuffering ty) (lightTransforms_gl ans)
                                  transformSize False False (m_lightTransforms this1);
            this2 = this1\<lparr>m_lightTransforms := transforms\<rparr>
        in
        if \<not> ok2 then (False, this2)
        else (True, this2\<lparr>m_lightDrawing := (m_lightDrawing this2)
                              \<lparr>capacity := ucast lightCount, dc_count := 0\<rparr>\<rparr>))"

definition buildGeometry :: "build_answers \<Rightarrow> Renderer \<Rightarrow> bool \<times> Renderer" where
  "buildGeometry ans this =
     (let (ok, g) = component_initialise (geometry_ok ans) (m_geometry this)
      in (ok, this\<lparr>m_geometry := g\<rparr>))"

definition buildFramebuffers :: "bool \<Rightarrow> bool \<Rightarrow> Renderer \<Rightarrow> bool \<times> Renderer" where
  "buildFramebuffers g_ok l_ok this =
     (let (ok1, g) = component_initialise g_ok (m_gbuffer this);
          this1 = this\<lparr>m_gbuffer := g\<rparr>
      in
      if \<not> ok1 then (False, this1)
      else let (ok2, l) = component_initialise l_ok (m_lbuffer this1)
           in (ok2, this1\<lparr>m_lbuffer := l\<rparr>))"

definition buildUniforms :: "bool \<Rightarrow> Renderer \<Rightarrow> bool \<times> Renderer" where
  "buildUniforms u_ok this =
     (let (ok, u) = component_initialise u_ok (m_uniforms this)
      in (ok, this\<lparr>m_uniforms := u\<rparr>))"

definition setInternalResolution :: "build_answers \<Rightarrow> int \<times> int \<Rightarrow> Renderer \<Rightarrow> Renderer" where
  "setInternalResolution ans resolution this =
     (if internalWidth (m_resolution this) \<noteq> fst resolution
         \<or> internalHeight (m_resolution this) \<noteq> snd resolution
      then
        let this1 = this\<lparr>m_resolution := (m_resolution this)
                          \<lparr>internalWidth := fst resolution, internalHeight := snd resolution\<rparr>\<rparr>
        in
        if m_gbuffer this1 \<and> m_lbuffer this1
        then snd (buildUniforms (resize_uniforms_ok ans)
                   (snd (buildFramebuffers (resize_gbuffer_ok ans) (resize_lbuffer_ok ans) this1)))
        else this1
      else this)"

definition setDisplayResolution :: "int \<times> int \<Rightarrow> Renderer \<Rightarrow> Renderer" where
  "setDisplayResolution resolution this =
     this\<lparr>m_resolution := (m_resolution this)
            \<lparr>displayWidth := fst resolution, displayHeight := snd resolution\<rparr>\<rparr>"

text \<open>
  \<open>fillDynamicInstances\<close> walks the meshes of the geometry (identifier and render mesh, in
  the iteration order of \<open>Geometry::getMeshes\<close>) and keeps, for each, the identifiers of
  its non-static instances; a mesh without any is left out.
\<close>

fun fillDynamicInstances_loop ::
  "('m, 'pl, 'sl) Context \<Rightarrow> (MeshId \<times> Mesh) list \<Rightarrow> MeshInstances list \<Rightarrow> MeshInstances list" where
  "fillDynamicInstances_loop scene [] dynamics = dynamics"
| "fillDynamicInstances_loop scene (pair # rest) dynamics =
     (let ids = getInstancesByMeshId scene (fst pair);
          dynamicIDs = filter (\<lambda>instance. \<not> isStatic (getInstanceById scene instance)) ids
      in fillDynamicInstances_loop scene rest
           (if length dynamicIDs > 0
            then dynamics @ [\<lparr>mesh = snd pair, instances = dynamicIDs\<rparr>]
            else dynamics))"

definition fillDynamicInstances ::
  "('m, 'pl, 'sl) Context \<Rightarrow> (MeshId \<times> Mesh) list \<Rightarrow> Renderer \<Rightarrow> Renderer" where
  "fillDynamicInstances scene sceneMeshes this =
     this\<lparr>m_dynamics := fillDynamicInstances_loop scene sceneMeshes []\<rparr>"

subsection \<open>initialise and clean\<close>

definition initialise ::
  "types \<Rightarrow> build_answers \<Rightarrow> nat \<Rightarrow> ('m, 'pl, 'sl) Context \<Rightarrow> (MeshId \<times> Mesh) list
     \<Rightarrow> int \<times> int \<Rightarrow> int \<times> int \<Rightarrow> Renderer \<Rightarrow> bool \<times> Renderer" where
  "initialise ty ans scene_ptr scene sceneMeshes internalRes displayRes this =
     (let this0 = this\<lparr>m_scene := Some scene_ptr\<rparr>;
          (ok1, this1) = buildPrograms ans this0
      in
      if \<not> ok1 then (False, this1)
      else
        let (ok2, this2) = buildMaterials ans this1 in
        if \<not> ok2 then (False, this2)
        else
          let (ok3, this3) = buildDynamicObjectBuffers ty ans scene this2 in
          if \<not> ok3 then (False, this3)
          else
            let (ok4, this4) = buildLightBuffers ty ans scene this3 in
            if \<not> ok4 then (False, this4)
            else
              let (ok5, this5) = buildGeometry ans this4 in
              if \<not> ok5 then (False, this5)
              else
                let this6 = setDisplayResolution displayRes
                              (setInternalResolution ans internalRes this5);
                    (ok7, this7) = buildFramebuffers (gbuffer_ok ans) (lbuffer_ok ans) this6
                in
                if \<not> ok7 then (False, this7)
                else
                  let (ok8, this8) = buildUniforms (uniforms_ok ans) this7 in
                  if \<not> ok8 then (False, this8)
                  else (True, fillDynamicInstances scene sceneMeshes this8))"

definition Renderer_clean :: "Renderer \<Rightarrow> Renderer" where
  "Renderer_clean this =
     this\<lparr>m_scene := None,
          m_programs := False,
          m_dynamics := [],
          m_materials := False,
          m_objectDrawing := (m_objectDrawing this)\<lparr>buffer := clean (buffer (m_objectDrawing this))\<rparr>,
          m_objectMaterialIDs := clean (m_objectMaterialIDs this),
          m_objectTransforms := clean (m_objectTransforms this),
          m_lightDrawing := (m_lightDrawing this)\<lparr>buffer := clean (buffer (m_lightDrawing this))\<rparr>,
          m_lightTransforms := clean (m_lightTransforms this),
          m_gbuffer := False,
          m_lbuffer := False,
          m_uniforms := False,
          m_geometry := False,
          m_resolution := \<lparr>internalWidth = 0, internalHeight = 0, displayWidth = 0,
                           displayHeight = 0\<rparr>,
          m_deferredRender := True,
          m_syncs := map Sync_clean (m_syncs this)\<rparr>"


subsection \<open>One frame: synchronisation, launch of the update tasks, fence, rotation\<close>

text \<open>
  \<open>render\<close> is modelled on the partition index and the sync objects, and on the order of
  the calls it makes. The trace lists these calls. A \<open>Launch\<close> is a call of \<open>std::async\<close>
  for an update task; it records the partition that is current at that moment and the
  state of that partition's fence. A \<open>Get\<close> is a call of \<open>get\<close> on the task's future in
  \<open>forwardRender\<close>, a \<open>WaitIfValid\<close> is the join of a future that is still valid in the
  destructor of \<open>ASyncActions\<close>, which runs when \<open>render\<close> returns. With the policy
  \<open>std::launch::async\<close> a task runs between its launch and its join, with
  \<open>std::launch::deferred\<close> it runs inside its join. What the tasks write is the subject
  of the next subsections.
\<close>

datatype task =
  SceneUniforms | DynamicObjects | DirectionalLights | PointLights | SpotLights
  | LightDrawCommands

datatype event =
    CheckIfSignalled nat bool
  | WaitForSignal nat bool nat bool
  | BindBlocksToPartition nat
  | Launch task nat Sync
  | Get task
  | DrawStaticObjects
  | DrawDynamicObjects nat
  | Blit
  | FenceSync nat bool
  | WaitIfValid task

definition oneSecond :: nat where
  "oneSecond = 1000000000"

definition syncWithGPUIfNecessary ::
  "bool \<Rightarrow> device \<Rightarrow> Renderer \<Rightarrow> event list \<times> (error + Renderer)" where
  "syncWithGPUIfNecessary ndebug dev this =
     (let k = unat (m_partition this);
          sync = m_syncs this ! k
      in
      if Sync_isInitialised sync then
        let (signalled, sync1) = checkIfSignalled (signalled_at_poll dev) sync in
        if \<not> signalled then
          let (result, sync2) = waitForSignal (signalled_in_wait dev) True oneSecond sync1;
              calls = [CheckIfSignalled k signalled, WaitForSignal k True oneSecond result]
          in
          case assert ndebug result of
            Inl e \<Rightarrow> (calls, Inl e)
          | Inr _ \<Rightarrow> (calls, Inr (this\<lparr>m_syncs := (m_syncs this)[k := sync2]\<rparr>))
        else ([CheckIfSignalled k signalled],
              Inr (this\<lparr>m_syncs := (m_syncs this)[k := sync1]\<rparr>))
      else ([], Inr this))"

definition forwardRender :: "Renderer \<Rightarrow> event list" where
  "forwardRender this =
     [Get SceneUniforms, Get DirectionalLights, Get PointLights, Get SpotLights,
      DrawStaticObjects, Get DynamicObjects, DrawDynamicObjects (unat (m_partition this))]"

definition deferredRender :: "Renderer \<Rightarrow> event list" where
  "deferredRender this = []"

text \<open>The futures that are still valid when the \<open>ASyncActions\<close> object is destroyed.\<close>

definition ASyncActions_dtor :: "Renderer \<Rightarrow> event list" where
  "ASyncActions_dtor this =
     (if m_deferredRender this
      then map WaitIfValid [SceneUniforms, LightDrawCommands, DirectionalLights, DynamicObjects,
                            PointLights, SpotLights]
      else [])"

definition render ::
  "bool \<Rightarrow> types \<Rightarrow> device \<Rightarrow> Renderer \<Rightarrow> event list \<times> (error + Renderer)" where
  "render ndebug ty dev this =
     (case syncWithGPUIfNecessary ndebug dev this of
        (calls, Inl e) \<Rightarrow> (calls, Inl e)
      | (calls, Inr this1) \<Rightarrow>
          let k = unat (m_partition this1);
              fence = m_syncs this1 ! k;
              launched = map (\<lambda>t. Launch t k fence)
                           ([SceneUniforms, DynamicObjects, DirectionalLights, PointLights,
                             SpotLights]
                            @ (if m_deferredRender this1 then [LightDrawCommands] else []));
              drawn = (if m_deferredRender this1 then deferredRender this1
                       else forwardRender this1);
              (armed, sync') = Sync_initialise (device_progress (signalled_at_arm dev) fence);
              calls' = calls @ [BindBlocksToPartition k] @ launched @ drawn
                       @ [Blit, FenceSync k armed]
          in
          case assert ndebug armed of
            Inl e \<Rightarrow> (calls', Inl e)
          | Inr _ \<Rightarrow>
              (calls' @ ASyncActions_dtor this1,
               Inr (this1\<lparr>m_syncs := (m_syncs this1)[k := sync'],
                          m_partition := (m_partition this1 + 1) mod multiBuffering ty\<rparr>)))"

text \<open>
  A run of frames: the device's behaviour in each frame is given, and the run stops at the
  first frame that aborts.
\<close>

fun render_frames ::
  "bool \<Rightarrow> types \<Rightarrow> device list \<Rightarrow> Renderer \<Rightarrow> error + Renderer" where
  "render_frames ndebug ty [] this = Inr this"
| "render_frames ndebug ty (dev # devs) this =
     (case snd (render ndebug ty dev this) of
        Inl e \<Rightarrow> Inl e
      | Inr this' \<Rightarrow> render_frames ndebug ty devs this')"


subsection \<open>Mapped memory\<close>

text \<open>
  The contents of a mapped buffer, seen through a pointer to elements of one type: the
  element last stored at each address. \<open>p[index] = v\<close> stores at \<open>p + index * sizeof\<close>.
\<close>

type_synonym 'a memory = "pointer \<Rightarrow> 'a option"

definition store :: "pointer \<Rightarrow> size_t \<Rightarrow> size_t \<Rightarrow> 'a \<Rightarrow> 'a memory \<Rightarrow> 'a memory" where
  "store base elementSize index v mem = mem(base + index * elementSize \<mapsto> v)"

subsection \<open>Dynamic objects\<close>

text \<open>
  The lambdas of \<open>updateDynamicObjects\<close> capture by reference the three buffer pointers
  and the counter \<open>baseInstance\<close>. Each call of a lambda stores one element; the stores
  are collected in the order they are issued, as element index and value, and performed
  on the memory afterwards (no lambda reads the buffers). The model transform written for
  an instance is \<open>toModelTransform\<close> of its transformation matrix, the material
  identifier is \<open>materials\<close> at its scene material (\<open>Materials::operator[]\<close>).
\<close>

datatype ('t, 'k) buffer_write =
    DrawCommandWrite size_t MultiDrawElementsIndirectCommand
  | TransformWrite size_t 't
  | MaterialIDWrite size_t 'k

record ('t, 'k) captured =
  baseInstance :: GLuint
  written :: "('t, 'k) buffer_write list"

definition addDrawCommand ::
  "size_t \<Rightarrow> Mesh \<Rightarrow> InstanceId list \<Rightarrow> ('t, 'k) captured \<Rightarrow> ('t, 'k) captured" where
  "addDrawCommand index m ids c =
     (let instanceCount = (of_nat (length ids) :: GLuint) in
      c\<lparr>written := written c @
           [DrawCommandWrite index
              \<lparr>cmd_elementCount = elementCount m, cmd_instanceCount = instanceCount,
               cmd_elementOffset = elementsIndex m, cmd_vertexOffset = verticesIndex m,
               cmd_baseInstance = baseInstance c\<rparr>],
        baseInstance := baseInstance c + instanceCount\<rparr>)"

definition addTransform ::
  "('m \<Rightarrow> 't) \<Rightarrow> size_t \<Rightarrow> 'm Instance \<Rightarrow> ('t, 'k) captured \<Rightarrow> ('t, 'k) captured" where
  "addTransform toModelTransform index instance c =
     c\<lparr>written := written c
          @ [TransformWrite index (toModelTransform (getTransformationMatrix instance))]\<rparr>"

definition addMaterialID ::
  "(MaterialId \<Rightarrow> 'k) \<Rightarrow> size_t \<Rightarrow> 'm Instance \<Rightarrow> ('t, 'k) captured \<Rightarrow> ('t, 'k) captured" where
  "addMaterialID materials index instance c =
     c\<lparr>written := written c @ [MaterialIDWrite index (materials (getMaterialId instance))]\<rparr>"

definition addTransformAndMaterialID ::
  "('m \<Rightarrow> 't) \<Rightarrow> (MaterialId \<Rightarrow> 'k) \<Rightarrow> size_t \<Rightarrow> 'm Instance
     \<Rightarrow> ('t, 'k) captured \<Rightarrow> ('t, 'k) captured" where
  "addTransformAndMaterialID toModelTransform materials index instance c =
     addMaterialID materials index instance (addTransform toModelTransform index instance c)"

text \<open>
  \<open>processMesh\<close> calls the given functions in order on one entry of \<open>m_dynamics\<close>;
  \<open>forEachDynamicMesh\<close> walks \<open>m_dynamics\<close> with a running mesh index.
\<close>

type_synonym 's MeshFunc = "size_t \<Rightarrow> Mesh \<Rightarrow> InstanceId list \<Rightarrow> 's \<Rightarrow> 's"

fun processMesh :: "size_t \<Rightarrow> MeshInstances \<Rightarrow> 's MeshFunc list \<Rightarrow> 's \<Rightarrow> 's" where
  "processMesh index meshInstances [] s = s"
| "processMesh index meshInstances (func # funcs) s =
     processMesh index meshInstances funcs
       (func index (mesh meshInstances) (instances meshInstances) s)"

fun forEachDynamicMesh_from ::
  "size_t \<Rightarrow> 's MeshFunc list \<Rightarrow> MeshInstances list \<Rightarrow> 's \<Rightarrow> 's" where
  "forEachDynamicMesh_from index funcs [] s = s"
| "forEachDynamicMesh_from index funcs (meshInstances # rest) s =
     forEachDynamicMesh_from (index + 1) funcs rest (processMesh index meshInstances funcs s)"

definition forEachDynamicMesh :: "'s MeshFunc list \<Rightarrow> MeshInstances list \<Rightarrow> 's \<Rightarrow> 's" where
  "forEachDynamicMesh funcs dynamics s = forEachDynamicMesh_from 0 funcs dynamics s"

text \<open>
  \<open>forEachDynamicMeshInstance\<close> keeps its own counter \<open>index\<close>, shared by the inner loops
  over the instances of every mesh; the counter is the first component of the state while
  the walk runs. The extra mesh functions do not see it.
\<close>

fun forEachInstance ::
  "(size_t \<Rightarrow> 'i \<Rightarrow> 's \<Rightarrow> 's) \<Rightarrow> (InstanceId \<Rightarrow> 'i) \<Rightarrow> InstanceId list
     \<Rightarrow> size_t \<times> 's \<Rightarrow> size_t \<times> 's" where
  "forEachInstance func byId [] (index, s) = (index, s)"
| "forEachInstance func byId (instanceID # rest) (index, s) =
     forEachInstance func byId rest (index + 1, func index (byId instanceID) s)"

definition withCounter :: "'s MeshFunc \<Rightarrow> (size_t \<times> 's) MeshFunc" where
  "withCounter func meshIndex m ids st = (fst st, func meshIndex m ids (snd st))"

definition forEachDynamicMeshInstance ::
  "(InstanceId \<Rightarrow> 'i) \<Rightarrow> (size_t \<Rightarrow> 'i \<Rightarrow> 's \<Rightarrow> 's) \<Rightarrow> 's MeshFunc list
     \<Rightarrow> MeshInstances list \<Rightarrow> 's \<Rightarrow> 's" where
  "forEachDynamicMeshInstance byId func meshFuncs dynamics s =
     snd (forEachDynamicMesh
            ((\<lambda>meshIndex m ids. forEachInstance func byId ids) # map withCounter meshFuncs)
            dynamics (0, s))"

text \<open>
  The three buffers of dynamic-object data are separate allocations, each seen through a
  pointer to its own element type.
\<close>

record ('t, 'k) ObjectMemory =
  drawCommandMemory :: "MultiDrawElementsIndirectCommand memory"
  transformMemory :: "'t memory"
  materialIDMemory :: "'k memory"

record ObjectPointers =
  drawCommandBuffer :: pointer
  transformBuffer :: pointer
  materialIDBuffer :: pointer

fun perform ::
  "types \<Rightarrow> ObjectPointers \<Rightarrow> ('t, 'k) buffer_write \<Rightarrow> ('t, 'k) ObjectMemory \<Rightarrow> ('t, 'k) ObjectMemory" where
  "perform ty ptrs (DrawCommandWrite index v) mem =
     mem\<lparr>drawCommandMemory :=
           store (drawCommandBuffer ptrs) (sizeof_MultiDrawElementsIndirectCommand ty) index v
             (drawCommandMemory mem)\<rparr>"
| "perform ty ptrs (TransformWrite index v) mem =
     mem\<lparr>transformMemory :=
           store (transformBuffer ptrs) (sizeof_ModelTransform ty) index v (transformMemory mem)\<rparr>"
| "perform ty ptrs (MaterialIDWrite index v) mem =
     mem\<lparr>materialIDMemory :=
           store (materialIDBuffer ptrs) (sizeof_MaterialID ty) index v (materialIDMemory mem)\<rparr>"

record ModifiedDynamicObjectRanges =
  drawCommands :: ModifiedRange
  transforms :: ModifiedRange
  materialIDs :: ModifiedRange

text \<open>
  The end of \<open>updateDynamicObjects\<close>: the draw-command container is pointed at the current
  partition and the three modified ranges are returned. \<open>count\<close> is a \<open>GLsizei\<close>.
\<close>

definition updateDynamicObjects_finish ::
  "types \<Rightarrow> Renderer \<Rightarrow> GLuint \<Rightarrow> ModifiedDynamicObjectRanges \<times> Renderer" where
  "updateDynamicObjects_finish ty this base =
     (let drawingOffset = partitionOffset (multiBuffering ty) (buffer (m_objectDrawing this))
                            (m_partition this);
          this' = this\<lparr>m_objectDrawing := (m_objectDrawing this)
                          \<lparr>start := drawingOffset,
                           dc_count := of_nat (length (m_dynamics this))\<rparr>\<rparr>
      in
      (\<lparr>drawCommands = ModifiedRange_ctor drawingOffset
           (sizeof_MultiDrawElementsIndirectCommand ty * scast (dc_count (m_objectDrawing this'))),
        transforms = ModifiedRange_ctor
           (partitionOffset (multiBuffering ty) (m_objectTransforms this) (m_partition this))
           (sizeof_ModelTransform ty * ucast base),
        materialIDs = ModifiedRange_ctor
           (partitionOffset (multiBuffering ty) (m_objectMaterialIDs this) (m_partition this))
           (sizeof_MaterialID ty * ucast base)\<rparr>,
       this'))"

text \<open>
  The stores of \<open>updateDynamicObjects\<close>. On one thread the instances are walked once,
  storing transform and material identifier of each instance and then the draw command of
  each mesh. With several threads two tasks walk the instances, one storing transforms and
  one storing material identifiers, while the calling thread stores the draw commands and
  then waits for both; the three sequences of stores may interleave in any way. The result
  is the set of possible runs: the final value of \<open>baseInstance\<close> and the stores in the
  order they are performed.
\<close>

definition dynamicObjectStores ::
  "(InstanceId \<Rightarrow> 'm Instance) \<Rightarrow> ('m \<Rightarrow> 't) \<Rightarrow> (MaterialId \<Rightarrow> 'k) \<Rightarrow> Renderer
     \<Rightarrow> (GLuint \<times> ('t, 'k) buffer_write list) set" where
  "dynamicObjectStores byId toModelTransform materials this =
     (let c0 = \<lparr>baseInstance = 0, written = []\<rparr> in
      if \<not> m_multiThreaded this then
        let c = forEachDynamicMeshInstance byId
                  (addTransformAndMaterialID toModelTransform materials) [addDrawCommand]
                  (m_dynamics this) c0
        in {(baseInstance c, written c)}
      else
        let transformTask = written (forEachDynamicMeshInstance byId
                              (addTransform toModelTransform) [] (m_dynamics this) c0);
            materialIDTask = written (forEachDynamicMeshInstance byId
                               (addMaterialID materials) [] (m_dynamics this) c0);
            c = forEachDynamicMesh [addDrawCommand] (m_dynamics this) c0
        in Pair (baseInstance c)
             ` (\<Union>both \<in> shuffles transformTask materialIDTask. shuffles both (written c)))"

text \<open>
  \<open>updateDynamicObjects\<close>: the three partition pointers are fetched, the stores are
  performed, the draw-command container is updated and the modified ranges are returned.
  The result is the set of possible outcomes.
\<close>

definition updateDynamicObjects ::
  "bool \<Rightarrow> types \<Rightarrow> (InstanceId \<Rightarrow> 'm Instance) \<Rightarrow> ('m \<Rightarrow> 't) \<Rightarrow> (MaterialId \<Rightarrow> 'k)
     \<Rightarrow> Renderer \<Rightarrow> ('t, 'k) ObjectMemory
     \<Rightarrow> (error + ModifiedDynamicObjectRanges \<times> Renderer \<times> ('t, 'k) ObjectMemory) set" where
  "updateDynamicObjects ndebug ty byId toModelTransform materials this mem =
     (case pointer ndebug (multiBuffering ty) (buffer (m_objectDrawing this)) (m_partition this) of
        Inl e \<Rightarrow> {Inl e}
      | Inr commandPointer \<Rightarrow>
     (case pointer ndebug (multiBuffering ty) (m_objectTransforms this) (m_partition this) of
        Inl e \<Rightarrow> {Inl e}
      | Inr transformPointer \<Rightarrow>
     (case pointer ndebug (multiBuffering ty) (m_objectMaterialIDs this) (m_partition this) of
        Inl e \<Rightarrow> {Inl e}
      | Inr materialIDPointer \<Rightarrow>
          let ptrs = \<lparr>drawCommandBuffer = commandPointer, transformBuffer = transformPointer,
                      materialIDBuffer = materialIDPointer\<rparr>
          in (\<lambda>(base, stores).
                let (ranges, this') = updateDynamicObjects_finish ty this base
                in Inr (ranges, this', fold (perform ty ptrs) stores mem))
               ` dynamicObjectStores byId toModelTransform materials this)))"

text \<open>
  Notions used to state what is stored. The stores of one kind, as element index and
  value, in the order performed:
\<close>

fun commandsOf :: "('t, 'k) buffer_write list \<Rightarrow> (size_t \<times> MultiDrawElementsIndirectCommand) list" where
  "commandsOf [] = []"
| "commandsOf (DrawCommandWrite index v # ws) = (index, v) # commandsOf ws"
| "commandsOf (w # ws) = commandsOf ws"

fun transformsOf :: "('t, 'k) buffer_write list \<Rightarrow> (size_t \<times> 't) list" where
  "transformsOf [] = []"
| "transformsOf (TransformWrite index v # ws) = (index, v) # transformsOf ws"
| "transformsOf (w # ws) = transformsOf ws"

fun materialIDsOf :: "('t, 'k) buffer_write list \<Rightarrow> (size_t \<times> 'k) list" where
  "materialIDsOf [] = []"
| "materialIDsOf (MaterialIDWrite index v # ws) = (index, v) # materialIDsOf ws"
| "materialIDsOf (w # ws) = materialIDsOf ws"

text \<open>
  Each entry of \<open>m_dynamics\<close> paired with the number of instances of the entries before it
  (counted from \<open>b\<close>), and the total number of dynamic instances.
\<close>

fun withBases :: "nat \<Rightarrow> MeshInstances list \<Rightarrow> (nat \<times> MeshInstances) list" where
  "withBases b [] = []"
| "withBases b (meshInstances # rest) =
     (b, meshInstances) # withBases (b + length (instances meshInstances)) rest"

definition totalDynamicInstances :: "MeshInstances list \<Rightarrow> nat" where
  "totalDynamicInstances dynamics = sum_list (map (\<lambda>mi. length (instances mi)) dynamics)"

text \<open>
  The draw commands, one per entry of \<open>m_dynamics\<close> at the entry's position, and the
  per-instance data, one element per instance at the running instance index, that a walk
  over \<open>m_dynamics\<close> amounts to; and, for each entry, the element indices of its
  instances.
\<close>

definition expectedCommands ::
  "MeshInstances list \<Rightarrow> (size_t \<times> MultiDrawElementsIndirectCommand) list" where
  "expectedCommands dynamics =
     map (\<lambda>(j, b, mi). (of_nat j,
            \<lparr>cmd_elementCount = elementCount (mesh mi),
             cmd_instanceCount = of_nat (length (instances mi)),
             cmd_elementOffset = elementsIndex (mesh mi),
             cmd_vertexOffset = verticesIndex (mesh mi),
             cmd_baseInstance = of_nat b\<rparr>))
       (enumerate 0 (withBases 0 dynamics))"

definition expectedInstanceData ::
  "(InstanceId \<Rightarrow> 'v) \<Rightarrow> MeshInstances list \<Rightarrow> (size_t \<times> 'v) list" where
  "expectedInstanceData valueOf dynamics =
     concat (map (\<lambda>(b, mi). map (\<lambda>(i, instanceID). (of_nat i, valueOf instanceID))
                              (enumerate b (instances mi)))
               (withBases 0 dynamics))"

definition instanceIndices :: "MeshInstances list \<Rightarrow> size_t list list" where
  "instanceIndices dynamics =
     map (\<lambda>(b, mi). map (\<lambda>(i, instanceID). of_nat i) (enumerate b (instances mi)))
       (withBases 0 dynamics)"

text \<open>The memory after the given stores of each kind, performed in order.\<close>

definition storesPerformed ::
  "types \<Rightarrow> ObjectPointers \<Rightarrow> (size_t \<times> MultiDrawElementsIndirectCommand) list
     \<Rightarrow> (size_t \<times> 't) list \<Rightarrow> (size_t \<times> 'k) list \<Rightarrow> ('t, 'k) ObjectMemory
     \<Rightarrow> ('t, 'k) ObjectMemory" where
  "storesPerformed ty ptrs cs ts ms mem =
     \<lparr>drawCommandMemory =
        fold (\<lambda>(i, v). store (drawCommandBuffer ptrs) (sizeof_MultiDrawElementsIndirectCommand ty) i v)
          cs (drawCommandMemory mem),
      transformMemory =
        fold (\<lambda>(i, v). store (transformBuffer ptrs) (sizeof_ModelTransform ty) i v)
          ts (transformMemory mem),
      materialIDMemory =
        fold (\<lambda>(i, v). store (materialIDBuffer ptrs) (sizeof_MaterialID ty) i v)
          ms (materialIDMemory mem)\<rparr>"

text \<open>The instance range \<open>[baseInstance, baseInstance + instanceCount)\<close> of a draw command.\<close>

definition instanceRange :: "MultiDrawElementsIndirectCommand \<Rightarrow> nat list" where
  "instanceRange c =
     [unat (cmd_baseInstance c) ..< unat (cmd_baseInstance c) + unat (cmd_instanceCount c)]"

subsection \<open>Lights\<close>

text \<open>
  \<open>FullBlock<T>\<close> is a counted array in a uniform block; \<open>Uniforms::Data\<close> pairs a pointer
  to it with the block's byte offset in the uniform buffer. The block is passed and
  returned by value. The conversion lambdas produce structures of floats, opaque here;
  the brightness scale \<open>m_pbs ? 1.35f : 1.f\<close> is passed on as the flag that selects it.
\<close>

record 'u FullBlock =
  count :: GLuint
  objects :: "nat \<Rightarrow> 'u option"

record 'u Data =
  data :: "'u FullBlock"
  block_offset :: GLintptr

text \<open>The loop \<open>for (GLuint i { 0 }; i < count; ++i)\<close> of \<open>processLightUniforms\<close>.\<close>

function processLightUniforms_loop ::
  "('l \<Rightarrow> bool \<Rightarrow> 'u) \<Rightarrow> bool \<Rightarrow> 'l list \<Rightarrow> GLuint \<Rightarrow> GLuint \<Rightarrow> 'u FullBlock \<Rightarrow> 'u FullBlock" where
  "processLightUniforms_loop func intensityScale lights n i blk =
     (if i < n
      then processLightUniforms_loop func intensityScale lights n (i + 1)
             (blk\<lparr>objects := (objects blk)(unat i \<mapsto> func (lights ! unat i) intensityScale)\<rparr>)
      else blk)"
  by pat_completeness auto
termination
proof (relation "measure (\<lambda>(func, intensityScale, lights, n, i, blk). unat n - unat i)")
  show "wf (measure (\<lambda>(func :: 'l \<Rightarrow> bool \<Rightarrow> 'u, intensityScale :: bool, lights :: 'l list,
                         n :: GLuint, i :: GLuint, blk :: 'u FullBlock). unat n - unat i))"
    by simp
next
  fix func :: "'l \<Rightarrow> bool \<Rightarrow> 'u" and intensityScale :: bool and lights :: "'l list"
    and n i :: GLuint and blk :: "'u FullBlock"
  assume less: "i < n"
  have "unat i < unat n" using less by (simp add: word_less_nat_alt)
  moreover have "unat n < 2 ^ 32" using unsigned_less[of n] by simp
  ultimately have "unat (i + 1) = unat i + 1" by (simp add: unat_word_ariths)
  then show "((func, intensityScale, lights, n, i + 1,
               blk\<lparr>objects := (objects blk)(unat i \<mapsto> func (lights ! unat i) intensityScale)\<rparr>),
              (func, intensityScale, lights, n, i, blk))
             \<in> measure (\<lambda>(func, intensityScale, lights, n, i, blk). unat n - unat i)"
    using \<open>unat i < unat n\<close> by simp
qed

definition processLightUniforms ::
  "Renderer \<Rightarrow> size_t \<Rightarrow> size_t \<Rightarrow> 'u Data \<Rightarrow> 'l list \<Rightarrow> ('l \<Rightarrow> bool \<Rightarrow> 'u)
     \<Rightarrow> 'u FullBlock \<times> ModifiedRange" where
  "processLightUniforms this countSize lightSize uniforms lights func =
     (let n = (of_nat (length lights) :: GLuint);
          blk = (data uniforms)\<lparr>count := n\<rparr>;
          intensityScale = m_pbs this;
          blk' = processLightUniforms_loop func intensityScale lights n 0 blk
      in (blk', ModifiedRange_ctor (block_offset uniforms) (countSize + lightSize * ucast n)))"

text \<open>
  The loop of \<open>processLightVolumes\<close> stores, for light \<open>i\<close>, the uniform entry \<open>i\<close> and the
  model transform \<open>transformOffset + i\<close> of the light-transform partition.
\<close>

function processLightVolumes_loop ::
  "types \<Rightarrow> pointer \<Rightarrow> size_t \<Rightarrow> ('l \<Rightarrow> bool \<Rightarrow> 'u) \<Rightarrow> ('l \<Rightarrow> 't) \<Rightarrow> bool \<Rightarrow> 'l list
     \<Rightarrow> GLuint \<Rightarrow> GLuint \<Rightarrow> 'u FullBlock \<times> 't memory \<Rightarrow> 'u FullBlock \<times> 't memory" where
  "processLightVolumes_loop ty transformPointer transformOffset uniFunc transFunc intensityScale
       lights n i st =
     (if i < n
      then processLightVolumes_loop ty transformPointer transformOffset uniFunc transFunc
             intensityScale lights n (i + 1)
             ((fst st)\<lparr>objects := (objects (fst st))
                                   (unat i \<mapsto> uniFunc (lights ! unat i) intensityScale)\<rparr>,
              store transformPointer (sizeof_ModelTransform ty) (transformOffset + ucast i)
                (transFunc (lights ! unat i)) (snd st))
      else st)"
  by pat_completeness auto
termination
proof (relation "measure (\<lambda>(ty, transformPointer, transformOffset, uniFunc, transFunc,
                           intensityScale, lights, n, i, st). unat n - unat i)")
  show "wf (measure (\<lambda>(ty :: types, transformPointer :: pointer, transformOffset :: size_t,
                         uniFunc :: 'l \<Rightarrow> bool \<Rightarrow> 'u, transFunc :: 'l \<Rightarrow> 't,
                         intensityScale :: bool, lights :: 'l list, n :: GLuint, i :: GLuint,
                         st :: 'u FullBlock \<times> 't memory). unat n - unat i))"
    by simp
next
  fix ty :: types and transformPointer :: pointer and transformOffset :: size_t
    and uniFunc :: "'l \<Rightarrow> bool \<Rightarrow> 'u" and transFunc :: "'l \<Rightarrow> 't" and intensityScale :: bool
    and lights :: "'l list" and n i :: GLuint and st :: "'u FullBlock \<times> 't memory"
  assume less: "i < n"
  have "unat i < unat n" using less by (simp add: word_less_nat_alt)
  moreover have "unat n < 2 ^ 32" using unsigned_less[of n] by simp
  ultimately have "unat (i + 1) = unat i + 1" by (simp add: unat_word_ariths)
  then show "((ty, transformPointer, transformOffset, uniFunc, transFunc, intensityScale, lights,
               n, i + 1,
               (fst st)\<lparr>objects := (objects (fst st))
                                     (unat i \<mapsto> uniFunc (lights ! unat i) intensityScale)\<rparr>,
               store transformPointer (sizeof_ModelTransform ty) (transformOffset + ucast i)
                 (transFunc (lights ! unat i)) (snd st)),
              (ty, transformPointer, transformOffset, uniFunc, transFunc, intensityScale, lights,
               n, i, st))
             \<in> measure (\<lambda>(ty, transformPointer, transformOffset, uniFunc, transFunc,
                           intensityScale, lights, n, i, st). unat n - unat i)"
    using \<open>unat i < unat n\<close> by simp
qed

record ModifiedLightVolumeRanges =
  lv_uniforms :: ModifiedRange
  lv_transforms :: ModifiedRange

definition processLightVolumes ::
  "bool \<Rightarrow> types \<Rightarrow> Renderer \<Rightarrow> size_t \<Rightarrow> size_t \<Rightarrow> 'u Data \<Rightarrow> 'l list \<Rightarrow> size_t
     \<Rightarrow> ('l \<Rightarrow> bool \<Rightarrow> 'u) \<Rightarrow> ('l \<Rightarrow> 't) \<Rightarrow> 't memory
     \<Rightarrow> error + ('u FullBlock \<times> 't memory \<times> ModifiedLightVolumeRanges)" where
  "processLightVolumes ndebug ty this countSize lightSize uniforms lights transformOffset
       uniFunc transFunc lightTransformMemory =
     (case pointer ndebug (multiBuffering ty) (m_lightTransforms this) (m_partition this) of
        Inl e \<Rightarrow> Inl e
      | Inr transformPointer \<Rightarrow>
          let n = (of_nat (length lights) :: GLuint);
              blk = (data uniforms)\<lparr>count := n\<rparr>;
              intensityScale = m_pbs this;
              (blk', mem') = processLightVolumes_loop ty transformPointer transformOffset uniFunc
                               transFunc intensityScale lights n 0 (blk, lightTransformMemory);
              matrixSize = sizeof_ModelTransform ty;
              partitionOff = partitionOffset (multiBuffering ty) (m_lightTransforms this)
                               (m_partition this);
              matrixOffset = partitionOff + matrixSize * transformOffset
          in Inr (blk', mem',
                  \<lparr>lv_uniforms = ModifiedRange_ctor (block_offset uniforms)
                                    (countSize + lightSize * ucast n),
                   lv_transforms = ModifiedRange_ctor matrixOffset (matrixSize * ucast n)\<rparr>))"

text \<open>
  \<open>updatePointLights\<close> and \<open>updateSpotlights\<close> take the writable block of their light type
  from the uniforms; the two conversion lambdas each defines are the parameters
  \<open>uniforms_fn\<close> and \<open>transforms_fn\<close>.
\<close>

definition updatePointLights ::
  "bool \<Rightarrow> types \<Rightarrow> Renderer \<Rightarrow> size_t \<Rightarrow> size_t \<Rightarrow> 'u Data \<Rightarrow> ('l \<Rightarrow> bool \<Rightarrow> 'u)
     \<Rightarrow> ('l \<Rightarrow> 't) \<Rightarrow> 'l list \<Rightarrow> size_t \<Rightarrow> 't memory
     \<Rightarrow> error + ('u FullBlock \<times> 't memory \<times> ModifiedLightVolumeRanges)" where
  "updatePointLights ndebug ty this countSize lightSize block uniforms_fn transforms_fn lights
       transformOffset lightTransformMemory =
     (if m_deferredRender this
      then processLightVolumes ndebug ty this countSize lightSize block lights transformOffset
             uniforms_fn transforms_fn lightTransformMemory
      else
        let (blk', modified) = processLightUniforms this countSize lightSize block lights
                                 uniforms_fn
        in Inr (blk', lightTransformMemory,
                \<lparr>lv_uniforms = modified, lv_transforms = ModifiedRange_ctor 0 0\<rparr>))"

definition updateSpotlights ::
  "bool \<Rightarrow> types \<Rightarrow> Renderer \<Rightarrow> size_t \<Rightarrow> size_t \<Rightarrow> 'u Data \<Rightarrow> ('l \<Rightarrow> bool \<Rightarrow> 'u)
     \<Rightarrow> ('l \<Rightarrow> 't) \<Rightarrow> 'l list \<Rightarrow> size_t \<Rightarrow> 't memory
     \<Rightarrow> error + ('u FullBlock \<times> 't memory \<times> ModifiedLightVolumeRanges)" where
  "updateSpotlights ndebug ty this countSize lightSize block uniforms_fn transforms_fn lights
       transformOffset lightTransformMemory =
     (if m_deferredRender this
      then processLightVolumes ndebug ty this countSize lightSize block lights transformOffset
             uniforms_fn transforms_fn lightTransformMemory
      else
        let (blk', modified) = processLightUniforms this countSize lightSize block lights
                                 uniforms_fn
        in Inr (blk', lightTransformMemory,
                \<lparr>lv_uniforms = modified, lv_transforms = ModifiedRange_ctor 0 0\<rparr>))"


section \<open>Concrete configurations\<close>

text \<open>
  Triple buffering with the element sizes of a five-word draw command, a 4x3 float matrix
  and a 32-bit material identifier.
\<close>

definition example_types :: types where
  "example_types = \<lparr>multiBuffering = 3, lightVolumeCount = 3,
     sizeof_MultiDrawElementsIndirectCommand = 20, sizeof_ModelTransform = 48,
     sizeof_MaterialID = 4\<rparr>"

text \<open>
  A forward renderer about to reuse partition 0, whose fence was armed three frames ago
  and has not been observed as signaled.
\<close>

definition frame_in_flight :: Renderer where
  "frame_in_flight = (Renderer_default example_types)
     \<lparr>m_syncs := [Armed, Signaled, Unarmed], m_deferredRender := False\<rparr>"

text \<open>A device that does not reach the fence during the frame, and one that has.\<close>

definition device_hung :: device where
  "device_hung = \<lparr>signalled_at_poll = False, signalled_in_wait = False, signalled_at_arm = False\<rparr>"

definition device_idle :: device where
  "device_idle = \<lparr>signalled_at_poll = True, signalled_in_wait = True, signalled_at_arm = True\<rparr>"

definition answers_all_ok :: build_answers where
  "answers_all_ok =
     \<lparr>shaders_ok = True, programs_ok = True, materials_ok = True,
      objectDrawing_gl = \<lparr>generated = 1, filled = 0, mapped = 0x7f0000000000\<rparr>,
      objectMaterialIDs_gl = \<lparr>generated = 2, filled = 0, mapped = 0x7f0000100000\<rparr>,
      objectTransforms_gl = \<lparr>generated = 3, filled = 0, mapped = 0x7f0000200000\<rparr>,
      lightDrawing_gl = \<lparr>generated = 4, filled = 0, mapped = 0x7f0000300000\<rparr>,
      lightTransforms_gl = \<lparr>generated = 5, filled = 0, mapped = 0x7f0000400000\<rparr>,
      geometry_ok = True, resize_gbuffer_ok = True, resize_lbuffer_ok = True,
      resize_uniforms_ok = True, gbuffer_ok = True, lbuffer_ok = True, uniforms_ok = True\<rparr>"

definition empty_scene :: "(nat, nat, nat) Context" where
  "empty_scene =
     \<lparr>getAllInstances = [],
      getInstanceById = (\<lambda>_. \<lparr>isStatic = True, getMeshId = 0, getMaterialId = 0,
                               getTransformationMatrix = 0\<rparr>),
      getInstancesByMeshId = (\<lambda>_. []), getAllPointLights = [], getAllSpotLights = []\<rparr>"


text \<open>
  Scenes of dynamic objects: instance \<open>n\<close> carries the matrix \<open>n\<close> and the material \<open>n\<close>. A
  single-threaded renderer with two dynamic meshes of five and two instances, with the
  stores it performs, and one with a single mesh of \<open>2^32\<close> instances.
\<close>

definition numbered_instance :: "InstanceId \<Rightarrow> nat Instance" where
  "numbered_instance n = \<lparr>isStatic = False, getMeshId = 0, getMaterialId = n,
                           getTransformationMatrix = n\<rparr>"

definition two_meshes :: Renderer where
  "two_meshes = (Renderer_default example_types)
     \<lparr>m_dynamics := [\<lparr>mesh = \<lparr>verticesIndex = 0, elementsIndex = 0, elementCount = 36\<rparr>,
                       instances = [10, 11, 12, 13, 14]\<rparr>,
                     \<lparr>mesh = \<lparr>verticesIndex = 24, elementsIndex = 36, elementCount = 24\<rparr>,
                       instances = [20, 21]\<rparr>],
      m_multiThreaded := False\<rparr>"

definition two_meshes_stores :: "(nat, nat) buffer_write list" where
  "two_meshes_stores =
     [TransformWrite 0 10, MaterialIDWrite 0 10, TransformWrite 1 11, MaterialIDWrite 1 11,
      TransformWrite 2 12, MaterialIDWrite 2 12, TransformWrite 3 13, MaterialIDWrite 3 13,
      TransformWrite 4 14, MaterialIDWrite 4 14,
      DrawCommandWrite 0 \<lparr>cmd_elementCount = 36, cmd_instanceCount = 5, cmd_elementOffset = 0,
                           cmd_vertexOffset = 0, cmd_baseInstance = 0\<rparr>,
      TransformWrite 5 20, MaterialIDWrite 5 20, TransformWrite 6 21, MaterialIDWrite 6 21,
      DrawCommandWrite 1 \<lparr>cmd_elementCount = 24, cmd_instanceCount = 2, cmd_elementOffset = 36,
                           cmd_vertexOffset = 24, cmd_baseInstance = 5\<rparr>]"

definition crowd :: "InstanceId list" where
  "crowd = replicate 4294967296 0"

definition crowded_renderer :: Renderer where
  "crowded_renderer = (Renderer_default example_types)
     \<lparr>m_dynamics := [\<lparr>mesh = \<lparr>verticesIndex = 0, elementsIndex = 0, elementCount = 36\<rparr>,
                       instances = crowd\<rparr>],
      m_multiThreaded := False\<rparr>"


section \<open>Theorems: the partitioned buffer\<close>

lemma partitionOffset_step:
  "partitionOffset P b i + partitionSize P b = partitionOffset P b (i + 1)"
  by (simp add: partitionOffset_def algebra_simps)

lemma partition_mult_total:
  assumes "m_size b mod P = 0"
  shows "P * partitionSize P b = m_size b"
  using assms div_mult_mod_eq[of "m_size b" P] by (simp add: partitionSize_def mult.commute)

lemma partitionOffset_last:
  assumes "m_size b mod P = 0"
  shows "partitionOffset P b (P - 1) + partitionSize P b = m_size b"
  using partition_mult_total[OF assms] by (simp add: partitionOffset_def algebra_simps)

lemma unat_partitionOffset:
  assumes "i \<le> P"
  shows "unat (partitionOffset P b i) = unat i * (unat (m_size b) div unat P)"
proof -
  have "unat i * (unat (m_size b) div unat P) \<le> unat P * (unat (m_size b) div unat P)"
    using assms by (simp add: word_le_nat_alt)
  also have "\<dots> \<le> unat (m_size b)" by simp
  also have "\<dots> < 2 ^ 64" using unsigned_less[of "m_size b"] by simp
  finally have "unat i * unat (m_size b div P) < 2 ^ LENGTH(64)"
    by (simp add: unat_div)
  then show ?thesis
    by (simp add: partitionOffset_def partitionSize_def unat_mult_lem[THEN iffD1] unat_div)
qed

text \<open>
  When the total size is evenly divisible by the partition count, every partition ends
  where the next one starts and the last one ends at the total size, both as \<open>GLintptr\<close>
  values and as byte counts without wrap-around.
\<close>

lemma divisible_size_tiles:
  assumes "Partitions \<noteq> 0" and "m_size b mod Partitions = 0"
  shows "(\<forall>i. i < Partitions - 1 \<longrightarrow>
            partitionOffset Partitions b i + partitionSize Partitions b
              = partitionOffset Partitions b (i + 1)
          \<and> unat (partitionOffset Partitions b i) + unat (partitionSize Partitions b)
              = unat (partitionOffset Partitions b (i + 1)))
       \<and> partitionOffset Partitions b (Partitions - 1) + partitionSize Partitions b = m_size b
       \<and> unat (partitionOffset Partitions b (Partitions - 1)) + unat (partitionSize Partitions b)
              = unat (m_size b)"
proof (intro conjI allI impI)
  fix i assume i: "i < Partitions - 1"
  show "partitionOffset Partitions b i + partitionSize Partitions b
          = partitionOffset Partitions b (i + 1)"
    by (rule partitionOffset_step)
  have m1: "unat (Partitions - 1) = unat Partitions - 1"
    using assms(1) by (simp add: unat_minus_one)
  have lt: "unat i + 1 < unat Partitions"
    using i m1 by (simp add: word_less_nat_alt)
  have bd: "unat Partitions < 2 ^ 64" using unsigned_less[of Partitions] by simp
  have i1: "unat (i + 1) = unat i + 1"
    using lt bd by (simp add: unat_word_ariths)
  have le1: "i + 1 \<le> Partitions"
    using lt i1 by (simp add: word_le_nat_alt)
  have le0: "i \<le> Partitions"
    using lt by (simp add: word_le_nat_alt)
  show "unat (partitionOffset Partitions b i) + unat (partitionSize Partitions b)
          = unat (partitionOffset Partitions b (i + 1))"
    using unat_partitionOffset[OF le0, of b] unat_partitionOffset[OF le1, of b] i1
    by (simp add: partitionSize_def unat_div)
next
  show "partitionOffset Partitions b (Partitions - 1) + partitionSize Partitions b = m_size b"
    by (rule partitionOffset_last[OF assms(2)])
next
  have m1: "unat (Partitions - 1) = unat Partitions - 1"
    using assms(1) by (simp add: unat_minus_one)
  have pos: "0 < unat Partitions" using assms(1) by (simp add: unat_gt_0)
  have dv: "unat Partitions dvd unat (m_size b)"
    using assms(2) by (metis mod_eq_0_iff_dvd unat_mod unsigned_0 unat_eq_zero)
  have "unat (partitionOffset Partitions b (Partitions - 1)) + unat (partitionSize Partitions b)
          = (unat Partitions - 1) * (unat (m_size b) div unat Partitions)
              + unat (m_size b) div unat Partitions"
    using unat_partitionOffset[of "Partitions - 1" Partitions b] m1
    by (simp add: partitionSize_def unat_div word_le_nat_alt)
  also have "\<dots> = unat Partitions * (unat (m_size b) div unat Partitions)"
    using pos by (cases "unat Partitions") simp_all
  also have "\<dots> = unat (m_size b)" using dv by simp
  finally show "unat (partitionOffset Partitions b (Partitions - 1))
                  + unat (partitionSize Partitions b) = unat (m_size b)" .
qed

lemma Buffer_initialise_simp [simp]:
  "Buffer_initialise g b = (g \<noteq> 0, g)"
  by (simp add: Buffer_initialise_def)

text \<open>
  Claim C6. Both overloads of \<open>initialise\<close> return false and leave the object as it was
  on every configuration error (zero size, size not divisible by the partition count,
  neither read nor write requested) and on every allocation or mapping failure (no buffer
  name generated, null mapping). Whenever either overload returns false the object is
  the one it was given.
\<close>

theorem initialise_failure_leaves_object:
  "(sz = 0 \<or> generated gl = 0 \<or> mapped gl = 0
      \<longrightarrow> initialise_size Partitions gl sz read coherent this = (False, this))
   \<and> ((\<not> read \<and> \<not> write) \<or> filled gl = 0 \<or> filled gl mod Partitions \<noteq> 0
        \<or> generated gl = 0 \<or> mapped gl = 0
      \<longrightarrow> initialise_data Partitions gl read write coherent this = (False, this))
   \<and> (\<not> fst (initialise_size Partitions gl sz read coherent this)
      \<longrightarrow> snd (initialise_size Partitions gl sz read coherent this) = this)
   \<and> (\<not> fst (initialise_data Partitions gl read write coherent this)
      \<longrightarrow> snd (initialise_data Partitions gl read write coherent this) = this)"
  by (auto simp add: initialise_size_def initialise_data_def Let_def)

text \<open>
  Claim C6, witness: a zero size, no access requested and a failed mapping, on a buffer
  that was initialised before.
\<close>

theorem initialise_failure_leaves_object_witness:
  "initialise_size 3 \<lparr>generated = 2, filled = 7, mapped = 0\<rparr> 0 False False
       \<lparr>m_buffer = 1, m_mapping = 0x7f0000000000, m_size = 0x3000, m_flushable = True\<rparr>
     = (False, \<lparr>m_buffer = 1, m_mapping = 0x7f0000000000, m_size = 0x3000, m_flushable = True\<rparr>)
   \<and> initialise_data 3 \<lparr>generated = 2, filled = 7, mapped = 0\<rparr> False False False
       \<lparr>m_buffer = 1, m_mapping = 0x7f0000000000, m_size = 0x3000, m_flushable = True\<rparr>
     = (False, \<lparr>m_buffer = 1, m_mapping = 0x7f0000000000, m_size = 0x3000, m_flushable = True\<rparr>)"
  using initialise_failure_leaves_object [of 0 "\<lparr>generated = 2, filled = 7, mapped = 0\<rparr>" 3 False False
      "\<lparr>m_buffer = 1, m_mapping = 0x7f0000000000, m_size = 0x3000, m_flushable = True\<rparr>" False]
  by simp

text \<open>
  The divisibility after a successful \<open>initialise\<close>: the data overload rejects a size that
  is not a multiple of \<open>Partitions\<close>, and the size overload allocates
  \<open>size * Partitions\<close> bytes, a multiple as long as the product does not wrap.
\<close>

lemma initialise_data_divisible:
  assumes "initialise_data Partitions gl read write coherent this = (True, b)"
  shows "m_size b mod Partitions = 0"
proof -
  have "filled gl mod Partitions = 0 \<and> m_size b = filled gl"
    using assms
    by (simp add: initialise_data_def Let_def split: if_splits prod.splits) auto
  then show ?thesis by simp
qed

lemma initialise_size_divisible:
  assumes "initialise_size Partitions gl sz read coherent this = (True, b)"
    and "unat sz * unat Partitions < 2 ^ 64"
  shows "m_size b mod Partitions = 0"
proof -
  have sz: "m_size b = sz * Partitions"
    using assms(1) by (auto simp add: initialise_size_def Let_def split: if_splits prod.splits)
  have "unat (sz * Partitions) = unat sz * unat Partitions"
    using assms(2) by (simp add: unat_mult_lem[THEN iffD1])
  then have "unat (sz * Partitions mod Partitions) = 0"
    by (simp add: unat_mod)
  then show ?thesis using sz by (simp add: unat_eq_zero)
qed

lemma pointer_in_range_nonnull:
  assumes base: "m_mapping b \<noteq> 0"
    and fits: "unat (m_mapping b) + unat (m_size b) \<le> 2 ^ 64"
    and part: "part < Partitions"
  shows "m_mapping b + partitionOffset Partitions b part \<noteq> 0"
proof -
  have le: "part \<le> Partitions" using part by simp
  have P: "0 < unat Partitions" using part by (metis unat_gt_0 word_not_simps(1))
  have off: "unat (partitionOffset Partitions b part)
               = unat part * (unat (m_size b) div unat Partitions)"
    by (rule unat_partitionOffset[OF le])
  have basepos: "0 < unat (m_mapping b)" using base by (simp add: unat_gt_0)
  show ?thesis
  proof (cases "unat (m_size b) div unat Partitions = 0")
    case True
    then have "partitionOffset Partitions b part = 0"
      using off by (simp add: unat_eq_zero)
    then show ?thesis using base by simp
  next
    case False
    have "unat part + 1 \<le> unat Partitions" using part by (simp add: word_less_nat_alt)
    then have "(unat part + 1) * (unat (m_size b) div unat Partitions)
                 \<le> unat Partitions * (unat (m_size b) div unat Partitions)"
      by (rule mult_le_mono1)
    also have "\<dots> \<le> unat (m_size b)" by simp
    finally have "unat part * (unat (m_size b) div unat Partitions) < unat (m_size b)"
      using False by simp
    then have lt: "unat (m_mapping b) + unat (partitionOffset Partitions b part) < 2 ^ 64"
      using fits off by simp
    then have "unat (m_mapping b + partitionOffset Partitions b part)
                 = unat (m_mapping b) + unat (partitionOffset Partitions b part)"
      by (simp add: unat_word_ariths)
    then have "0 < unat (m_mapping b + partitionOffset Partitions b part)"
      using basepos by simp
    then show ?thesis by (metis unat_gt_0)
  qed
qed

text \<open>
  What \<open>pointer\<close> computes for a mapped buffer whose range lies inside the address space.
  For \<open>p < Partitions\<close> it is the mapping base plus \<open>p\<close> times the partition size, in
  every build. For an out-of-range index it is the mapping base when \<open>NDEBUG\<close> is defined;
  with assertions enabled the call aborts when the address computed for the index is null,
  because \<open>assert (pointer)\<close> is evaluated on that address before the range test.
\<close>

lemma pointer_partition_or_base:
  assumes "m_mapping b \<noteq> 0"
    and "unat (m_mapping b) + unat (m_size b) \<le> 2 ^ 64"
  shows "(part < Partitions \<longrightarrow>
            pointer ndebug Partitions b part
              = Inr (m_mapping b + part * partitionSize Partitions b))
       \<and> (\<not> part < Partitions \<longrightarrow>
            pointer ndebug Partitions b part
              = (if \<not> ndebug \<and> m_mapping b + part * partitionSize Partitions b = 0
                 then Inl AssertionFailed else Inr (m_mapping b)))"
  using pointer_in_range_nonnull[OF assms, of part Partitions]
  by (auto simp add: pointer_def assert_def partitionOffset_def Let_def)

text \<open>
  Claim C9, the code at a failing input: a build with assertions enabled, an initialised
  buffer of three 4096-byte partitions mapped at \<open>0x7f0000000000\<close> and the out-of-range
  index \<open>2^52 - 0x7f0000000\<close>. The offset is \<open>-0x7f0000000000\<close> as a \<open>GLintptr\<close>, the
  address computed for the index is null and \<open>assert (pointer)\<close>, which is evaluated before
  the range test, aborts the call. The documentation of \<open>pointer\<close> says that the start of
  the buffer is returned for an invalid index, which is what the same call does when
  \<open>NDEBUG\<close> is defined.
\<close>

theorem pointer_out_of_range_aborts:
  "isInitialised \<lparr>m_buffer = 1, m_mapping = 0x7f0000000000, m_size = 0x3000, m_flushable = True\<rparr>
   \<and> \<not> (4503565536067584 :: size_t) < 3
   \<and> pointer False 3 \<lparr>m_buffer = 1, m_mapping = 0x7f0000000000, m_size = 0x3000, m_flushable = True\<rparr>
        4503565536067584 = Inl AssertionFailed
   \<and> pointer True 3 \<lparr>m_buffer = 1, m_mapping = 0x7f0000000000, m_size = 0x3000, m_flushable = True\<rparr>
        4503565536067584 = Inr 0x7f0000000000"
  by (simp add: pointer_def assert_def partitionOffset_def partitionSize_def isInitialised_def
      Buffer_isInitialised_def)

text \<open>
  The last valid index and the first invalid one of a buffer of three partitions.
\<close>

lemma pointer_partition_or_base_example:
  "pointer False 3 \<lparr>m_buffer = 1, m_mapping = 0x7f0000000000, m_size = 0x3000, m_flushable = True\<rparr> 2
     = Inr 0x7f0000002000
   \<and> pointer False 3 \<lparr>m_buffer = 1, m_mapping = 0x7f0000000000, m_size = 0x3000, m_flushable = True\<rparr> 3
     = Inr 0x7f0000000000"
  using pointer_partition_or_base [of "\<lparr>m_buffer = 1, m_mapping = 0x7f0000000000, m_size = 0x3000, m_flushable = True\<rparr>" 2 3 False]
    pointer_partition_or_base [of "\<lparr>m_buffer = 1, m_mapping = 0x7f0000000000, m_size = 0x3000, m_flushable = True\<rparr>" 3 3 False]
  by (simp add: partitionSize_def)

text \<open>
  Claim C5, as amended. A buffer that \<open>initialise\<close> has built from data, or from a
  partition size whose product with the partition count is below \<open>2^64\<close>, has a total size
  evenly divisible by the partition count; every partition ends where the next one starts
  and the last one ends at the total size, both as \<open>GLintptr\<close> values and as byte counts
  without wrap-around: the partitions tile the buffer.
\<close>

theorem initialised_partitions_tile_buffer:
  assumes "Partitions \<noteq> 0"
    and "initialise_data Partitions gl read write coherent this = (True, b)
         \<or> (initialise_size Partitions gl sz read coherent this = (True, b)
            \<and> unat sz * unat Partitions < 2 ^ 64)"
  shows "m_size b mod Partitions = 0
       \<and> (\<forall>i. i < Partitions - 1 \<longrightarrow>
            partitionOffset Partitions b i + partitionSize Partitions b
              = partitionOffset Partitions b (i + 1)
          \<and> unat (partitionOffset Partitions b i) + unat (partitionSize Partitions b)
              = unat (partitionOffset Partitions b (i + 1)))
       \<and> partitionOffset Partitions b (Partitions - 1) + partitionSize Partitions b = m_size b
       \<and> unat (partitionOffset Partitions b (Partitions - 1)) + unat (partitionSize Partitions b)
              = unat (m_size b)"
proof -
  have dv: "m_size b mod Partitions = 0"
    using assms(2) initialise_data_divisible initialise_size_divisible by blast
  show ?thesis
    using dv divisible_size_tiles[OF assms(1) dv] by blast
qed

text \<open>
  Claim C5, counterexample to the claim as stated: the size overload computes
  \<open>size * Partitions\<close> in \<open>size_t\<close> without a check. For three partitions and a partition
  size of \<open>0x5555555555555556\<close> bytes the product wraps to 2: the call succeeds, the buffer
  is initialised with a total size of 2 bytes, which is not a multiple of 3, every partition
  has size 0 and the last partition does not end at the total size.
\<close>

theorem initialise_size_wraps_counterexample:
  "initialise_size 3 \<lparr>generated = 1, filled = 0, mapped = 0x7f0000000000\<rparr>
       0x5555555555555556 False True PersistentMappedBuffer_default
     = (True, \<lparr>m_buffer = 1, m_mapping = 0x7f0000000000, m_size = 2, m_flushable = False\<rparr>)
   \<and> isInitialised \<lparr>m_buffer = 1, m_mapping = 0x7f0000000000, m_size = 2, m_flushable = False\<rparr>
   \<and> m_size \<lparr>m_buffer = 1, m_mapping = 0x7f0000000000, m_size = 2, m_flushable = False\<rparr> mod 3 = 2
   \<and> partitionSize 3 \<lparr>m_buffer = 1, m_mapping = 0x7f0000000000, m_size = 2, m_flushable = False\<rparr> = 0
   \<and> partitionOffset 3 \<lparr>m_buffer = 1, m_mapping = 0x7f0000000000, m_size = 2, m_flushable = False\<rparr> 2
       + partitionSize 3 \<lparr>m_buffer = 1, m_mapping = 0x7f0000000000, m_size = 2, m_flushable = False\<rparr>
       \<noteq> m_size \<lparr>m_buffer = 1, m_mapping = 0x7f0000000000, m_size = 2, m_flushable = False\<rparr>"
  by (simp add: initialise_size_def Let_def getAccessFlags_def GL_MAP_READ_BIT_def
      GL_MAP_WRITE_BIT_def GL_MAP_FLUSH_EXPLICIT_BIT_def GL_MAP_PERSISTENT_BIT_def
      GL_MAP_COHERENT_BIT_def isInitialised_def Buffer_isInitialised_def partitionSize_def
      partitionOffset_def PersistentMappedBuffer_default_def)

text \<open>
  Claim C5, witness: three partitions of 4096 bytes, built once by each overload.
\<close>

theorem initialised_partitions_tile_buffer_witness:
  "initialise_size 3 \<lparr>generated = 1, filled = 0, mapped = 0x7f0000000000\<rparr> 0x1000 False True
       PersistentMappedBuffer_default
     = (True, \<lparr>m_buffer = 1, m_mapping = 0x7f0000000000, m_size = 0x3000, m_flushable = False\<rparr>)
   \<and> initialise_data 3 \<lparr>generated = 1, filled = 0x3000, mapped = 0x7f0000000000\<rparr> False True True
       PersistentMappedBuffer_default
     = (True, \<lparr>m_buffer = 1, m_mapping = 0x7f0000000000, m_size = 0x3000, m_flushable = False\<rparr>)
   \<and> partitionOffset 3 \<lparr>m_buffer = 1, m_mapping = 0x7f0000000000, m_size = 0x3000, m_flushable = False\<rparr> 0 = 0
   \<and> partitionOffset 3 \<lparr>m_buffer = 1, m_mapping = 0x7f0000000000, m_size = 0x3000, m_flushable = False\<rparr> 1 = 0x1000
   \<and> partitionOffset 3 \<lparr>m_buffer = 1, m_mapping = 0x7f0000000000, m_size = 0x3000, m_flushable = False\<rparr> 2 = 0x2000
   \<and> partitionOffset 3 \<lparr>m_buffer = 1, m_mapping = 0x7f0000000000, m_size = 0x3000, m_flushable = False\<rparr> 2
       + partitionSize 3 \<lparr>m_buffer = 1, m_mapping = 0x7f0000000000, m_size = 0x3000, m_flushable = False\<rparr>
       = 0x3000"
  using initialised_partitions_tile_buffer [of 3
      "\<lparr>generated = 1, filled = 0, mapped = 0x7f0000000000\<rparr>" False True True
      PersistentMappedBuffer_default
      "\<lparr>m_buffer = 1, m_mapping = 0x7f0000000000, m_size = 0x3000, m_flushable = False\<rparr>"
      "0x1000"]
    initialised_partitions_tile_buffer [of 3
      "\<lparr>generated = 1, filled = 0x3000, mapped = 0x7f0000000000\<rparr>" False True True
      PersistentMappedBuffer_default
      "\<lparr>m_buffer = 1, m_mapping = 0x7f0000000000, m_size = 0x3000, m_flushable = False\<rparr>"
      "0x1000"]
  by (simp add: initialise_size_def initialise_data_def Let_def getAccessFlags_def GL_MAP_READ_BIT_def
      GL_MAP_WRITE_BIT_def GL_MAP_FLUSH_EXPLICIT_BIT_def GL_MAP_PERSISTENT_BIT_def
      GL_MAP_COHERENT_BIT_def partitionSize_def
      partitionOffset_def PersistentMappedBuffer_default_def)


section \<open>Theorems: the frame\<close>


lemma sync_cases:
  "syncWithGPUIfNecessary ndebug dev this = (calls, res) \<Longrightarrow>
     (\<forall>t k s. Launch t k s \<notin> set calls) \<and>
     (case res of Inl e \<Rightarrow> True
      | Inr this1 \<Rightarrow> m_partition this1 = m_partition this
          \<and> length (m_syncs this1) = length (m_syncs this))"
  by (auto simp add: syncWithGPUIfNecessary_def Let_def checkIfSignalled_def waitForSignal_def
      assert_def split: if_splits sum.splits)

lemma sync_partition:
  "syncWithGPUIfNecessary ndebug dev this = (calls, Inr this1) \<Longrightarrow>
     m_partition this1 = m_partition this \<and> length (m_syncs this1) = length (m_syncs this)"
  using sync_cases[of ndebug dev this calls "Inr this1"] by simp

lemma sync_fence_state:
  assumes "syncWithGPUIfNecessary ndebug dev this = (calls, Inr this1)"
    and "unat (m_partition this) < length (m_syncs this)"
    and "\<not> ndebug \<or> m_syncs this ! unat (m_partition this) \<noteq> Armed
           \<or> signalled_at_poll dev \<or> signalled_in_wait dev"
  shows "m_syncs this1 ! unat (m_partition this) \<noteq> Armed"
  using assms
  by (auto simp add: syncWithGPUIfNecessary_def Let_def checkIfSignalled_def waitForSignal_def
      assert_def device_progress_def Sync_isInitialised_def split: if_splits sum.splits)


lemma sync_mode:
  "syncWithGPUIfNecessary ndebug dev this = (calls, Inr this1) \<Longrightarrow>
     m_deferredRender this1 = m_deferredRender this"
  by (auto simp add: syncWithGPUIfNecessary_def Let_def checkIfSignalled_def waitForSignal_def
      assert_def split: if_splits sum.splits)

lemmas frame_eval =
  render_def syncWithGPUIfNecessary_def Let_def checkIfSignalled_def waitForSignal_def
  assert_def device_progress_def Sync_isInitialised_def Sync_initialise_def forwardRender_def
  deferredRender_def ASyncActions_dtor_def Renderer_default_def example_types_def
  frame_in_flight_def device_hung_def oneSecond_def

text \<open>
  Claim C1, the code at a failing input: a build with \<open>NDEBUG\<close>, the fence of partition 0
  armed and a device that does not reach it within one second. \<open>syncWithGPUIfNecessary\<close>
  polls the fence and waits once with \<open>forceFlush = true\<close>; the wait returns false,
  \<open>assert (result)\<close> is compiled out and the renderer is left as it was, the fence still
  armed and unsignaled. \<open>render\<close> then binds partition 0 and hands it to every update task,
  in forward rendering and in deferred rendering (the default of the class) alike. The
  comment above the wait says that it is there so that no data race is caused.
\<close>

theorem update_tasks_launched_on_armed_partition:
  "m_syncs frame_in_flight ! unat (m_partition frame_in_flight) = Armed
   \<and> syncWithGPUIfNecessary True device_hung frame_in_flight
       = ([CheckIfSignalled 0 False, WaitForSignal 0 True 1000000000 False], Inr frame_in_flight)
   \<and> take 8 (fst (render True example_types device_hung frame_in_flight))
       = [CheckIfSignalled 0 False, WaitForSignal 0 True 1000000000 False,
          BindBlocksToPartition 0,
          Launch SceneUniforms 0 Armed, Launch DynamicObjects 0 Armed,
          Launch DirectionalLights 0 Armed, Launch PointLights 0 Armed,
          Launch SpotLights 0 Armed]
   \<and> take 9 (fst (render True example_types device_hung
                     (setRenderingMode True frame_in_flight)))
       = [CheckIfSignalled 0 False, WaitForSignal 0 True 1000000000 False,
          BindBlocksToPartition 0,
          Launch SceneUniforms 0 Armed, Launch DynamicObjects 0 Armed,
          Launch DirectionalLights 0 Armed, Launch PointLights 0 Armed,
          Launch SpotLights 0 Armed, Launch LightDrawCommands 0 Armed]"
  by (simp add: frame_eval setRenderingMode_def)

text \<open>
  Claim C7, the code at a failing input: a build with \<open>NDEBUG\<close>, the fence of partition 0
  armed and a device that does not reach it within the timeout. The expired wait is not
  acted upon: the frame runs to completion as it would after a successful wait, launching
  every update task on partition 0 with its fence still armed, and the partition index
  advances.
\<close>

theorem timeout_ignored_under_ndebug:
  "m_syncs frame_in_flight ! unat (m_partition frame_in_flight) = Armed
   \<and> render True example_types device_hung frame_in_flight
     = ([CheckIfSignalled 0 False, WaitForSignal 0 True 1000000000 False,
         BindBlocksToPartition 0,
         Launch SceneUniforms 0 Armed, Launch DynamicObjects 0 Armed,
         Launch DirectionalLights 0 Armed, Launch PointLights 0 Armed,
         Launch SpotLights 0 Armed,
         Get SceneUniforms, Get DirectionalLights, Get PointLights, Get SpotLights,
         DrawStaticObjects, Get DynamicObjects, DrawDynamicObjects 0, Blit, FenceSync 0 False],
        Inr (frame_in_flight\<lparr>m_partition := 1\<rparr>))"
  by (simp add: frame_eval)

text \<open>
  Claim C7, the sibling build. In a build with assertions enabled, when the fence of the current
  partition is armed, the poll finds it unsignaled and the one-second wait expires,
  \<open>render\<close> aborts at \<open>assert (result)\<close>: the frame ends after the poll and the wait, and
  no update task is launched.
\<close>

theorem timeout_aborts_with_assertions:
  assumes "\<not> ndebug"
    and "m_syncs this ! unat (m_partition this) = Armed"
    and "\<not> signalled_at_poll dev" and "\<not> signalled_in_wait dev"
  shows "render ndebug ty dev this
           = ([CheckIfSignalled (unat (m_partition this)) False,
               WaitForSignal (unat (m_partition this)) True oneSecond False],
              Inl AssertionFailed)"
  using assms
  by (simp add: render_def syncWithGPUIfNecessary_def Let_def checkIfSignalled_def
      waitForSignal_def assert_def device_progress_def Sync_isInitialised_def)

text \<open>
  Claim C7, the sibling build at the same input: the frame in flight with a device that
  does not respond aborts.
\<close>

theorem timeout_aborts_with_assertions_witness:
  "render False example_types device_hung frame_in_flight
     = ([CheckIfSignalled 0 False, WaitForSignal 0 True 1000000000 False], Inl AssertionFailed)"
  using timeout_aborts_with_assertions [of False frame_in_flight device_hung example_types]
  by (simp add: frame_in_flight_def device_hung_def Renderer_default_def oneSecond_def)

text \<open>
  The other paths through the frame. Every launch of an update task comes after the calls
  of \<open>syncWithGPUIfNecessary\<close> on the fence of the current partition and is for the
  current partition. If that fence is armed and the poll finds it unsignaled, these calls
  are the poll and one wait with \<open>forceFlush = true\<close> and a timeout of one second. Unless
  that wait times out in a build with \<open>NDEBUG\<close>, the fence is not armed-and-unsignaled at
  any launch, in either rendering mode; in forward rendering every task launched is joined
  before the fence is armed again.
\<close>

lemma launch_after_fence_check:
  assumes run: "render ndebug ty dev this = (tr, res)"
    and launch: "Launch t k s \<in> set tr"
    and wf: "unat (m_partition this) < length (m_syncs this)"
    and no_ignored_timeout:
      "\<not> ndebug \<or> m_syncs this ! unat (m_partition this) \<noteq> Armed
         \<or> signalled_at_poll dev \<or> signalled_in_wait dev"
  shows "k = unat (m_partition this) \<and> s \<noteq> Armed
       \<and> (m_syncs this ! k = Armed \<and> \<not> signalled_at_poll dev \<longrightarrow>
            fst (syncWithGPUIfNecessary ndebug dev this)
              = [CheckIfSignalled k False, WaitForSignal k True oneSecond True])
       \<and> (\<exists>rest. tr = fst (syncWithGPUIfNecessary ndebug dev this) @ BindBlocksToPartition k # rest
                  \<and> Launch t k s \<in> set rest
                  \<and> (\<not> m_deferredRender this \<longrightarrow>
                       (\<exists>armed. rest =
                          [Launch SceneUniforms k s, Launch DynamicObjects k s,
                           Launch DirectionalLights k s, Launch PointLights k s,
                           Launch SpotLights k s,
                           Get SceneUniforms, Get DirectionalLights, Get PointLights,
                           Get SpotLights, DrawStaticObjects, Get DynamicObjects,
                           DrawDynamicObjects k, Blit, FenceSync k armed])))"
proof -
  obtain calls r where sy: "syncWithGPUIfNecessary ndebug dev this = (calls, r)"
    by (cases "syncWithGPUIfNecessary ndebug dev this")
  have nolaunch: "Launch t k s \<notin> set calls"
    using sync_cases[OF sy] by simp
  show ?thesis
  proof (cases r)
    case (Inl e)
    then have "tr = calls" using run sy by (simp add: render_def)
    then show ?thesis using launch nolaunch by simp
  next
    case (Inr this1)
    have p1: "m_partition this1 = m_partition this"
      using sync_partition sy Inr by blast
    have d1: "m_deferredRender this1 = m_deferredRender this"
      using sync_mode sy Inr by blast
    have fence: "m_syncs this1 ! unat (m_partition this) \<noteq> Armed"
      using sync_fence_state[OF _ wf no_ignored_timeout] sy Inr by blast
    let ?k = "unat (m_partition this)"
    let ?f = "m_syncs this1 ! ?k"
    let ?armed = "fst (Sync_initialise (device_progress (signalled_at_arm dev) ?f))"
    let ?rest = "map (\<lambda>t. Launch t ?k ?f)
                   ([SceneUniforms, DynamicObjects, DirectionalLights, PointLights, SpotLights]
                    @ (if m_deferredRender this then [LightDrawCommands] else []))
                 @ (if m_deferredRender this then deferredRender this1 else forwardRender this1)
                 @ [Blit, FenceSync ?k ?armed]
                 @ (case res of Inl e \<Rightarrow> [] | Inr this' \<Rightarrow> ASyncActions_dtor this1)"
    have tr: "tr = calls @ BindBlocksToPartition ?k # ?rest"
      using run sy Inr p1 d1
      by (auto simp add: render_def Let_def split: prod.splits sum.splits)
    have inrest: "Launch t k s \<in> set ?rest" using launch tr nolaunch by auto
    then have ks: "k = ?k \<and> s = ?f"
      by (auto simp add: forwardRender_def deferredRender_def ASyncActions_dtor_def
          split: if_splits)
    have wait: "m_syncs this ! k = Armed \<and> \<not> signalled_at_poll dev \<longrightarrow>
            calls = [CheckIfSignalled k False, WaitForSignal k True oneSecond True]"
      using sy Inr ks no_ignored_timeout
      by (auto simp add: syncWithGPUIfNecessary_def Let_def checkIfSignalled_def
          waitForSignal_def assert_def device_progress_def Sync_isInitialised_def
          split: if_splits)
    have forward: "\<not> m_deferredRender this \<longrightarrow>
        ?rest = [Launch SceneUniforms k s, Launch DynamicObjects k s,
                 Launch DirectionalLights k s, Launch PointLights k s, Launch SpotLights k s,
                 Get SceneUniforms, Get DirectionalLights, Get PointLights,
                 Get SpotLights, DrawStaticObjects, Get DynamicObjects,
                 DrawDynamicObjects k, Blit, FenceSync k ?armed]"
      using ks p1 d1 by (simp add: forwardRender_def ASyncActions_dtor_def split: sum.splits)
    show ?thesis
      using ks fence tr inrest wait forward sy by auto
  qed
qed

text \<open>
  A frame in which the device reaches the fence during the wait.
\<close>

lemma launch_after_fence_check_example:
  "Launch DynamicObjects 0 Signaled
     \<in> set (fst (render False example_types (device_hung\<lparr>signalled_in_wait := True\<rparr>) frame_in_flight))
   \<and> fst (render False example_types (device_hung\<lparr>signalled_in_wait := True\<rparr>) frame_in_flight)
     = [CheckIfSignalled 0 False, WaitForSignal 0 True 1000000000 True,
         BindBlocksToPartition 0,
         Launch SceneUniforms 0 Signaled, Launch DynamicObjects 0 Signaled,
         Launch DirectionalLights 0 Signaled, Launch PointLights 0 Signaled,
         Launch SpotLights 0 Signaled,
         Get SceneUniforms, Get DirectionalLights, Get PointLights, Get SpotLights,
         DrawStaticObjects, Get DynamicObjects, DrawDynamicObjects 0, Blit, FenceSync 0 True]"
  using launch_after_fence_check [of False example_types "device_hung\<lparr>signalled_in_wait := True\<rparr>"
      frame_in_flight
      "fst (render False example_types (device_hung\<lparr>signalled_in_wait := True\<rparr>) frame_in_flight)"
      "snd (render False example_types (device_hung\<lparr>signalled_in_wait := True\<rparr>) frame_in_flight)"
      DynamicObjects 0 Signaled]
  by (simp add: frame_eval)

text \<open>
  In a build with assertions enabled no update task is ever launched on a partition whose
  fence is armed and unsignaled, whatever the device does and in either rendering mode.
\<close>

lemma launches_safe_with_assertions:
  assumes "render False ty dev this = (tr, res)"
    and "Launch t k s \<in> set tr"
    and "unat (m_partition this) < length (m_syncs this)"
  shows "k = unat (m_partition this) \<and> s \<noteq> Armed"
  using launch_after_fence_check[OF assms] by simp

lemma render_partition:
  assumes "render ndebug ty dev this = (tr, Inr this')"
  shows "m_partition this' = (m_partition this + 1) mod multiBuffering ty"
proof -
  obtain calls r where sy: "syncWithGPUIfNecessary ndebug dev this = (calls, r)"
    by (cases "syncWithGPUIfNecessary ndebug dev this")
  show ?thesis
  proof (cases r)
    case (Inl e)
    then show ?thesis using assms sy by (simp add: render_def)
  next
    case (Inr this1)
    have "m_partition this1 = m_partition this" using sync_partition sy Inr by blast
    then show ?thesis using assms sy Inr
      by (auto simp add: render_def Let_def split: prod.splits sum.splits)
  qed
qed

lemma unat_next_partition:
  fixes p P :: size_t
  assumes "p < P"
  shows "unat ((p + 1) mod P) = (unat p + 1) mod unat P"
proof -
  have "unat p + 1 \<le> unat P" using assms by (simp add: word_less_nat_alt)
  moreover have "unat P < 2 ^ 64" using unsigned_less[of P] by simp
  ultimately have "unat (p + 1) = unat p + 1" by (simp add: unat_word_ariths)
  then show ?thesis by (simp add: unat_mod)
qed

lemma next_partition_less:
  fixes p P :: size_t
  assumes "P \<noteq> 0"
  shows "(p + 1) mod P < P"
proof -
  have "0 < unat P" using assms by (simp add: unat_gt_0)
  then have "unat (p + 1) mod unat P < unat P" by simp
  then show ?thesis by (simp add: word_less_nat_alt unat_mod)
qed

lemma render_frames_partition:
  assumes "multiBuffering ty \<noteq> 0"
  shows "m_partition this < multiBuffering ty \<Longrightarrow>
         render_frames ndebug ty devs this = Inr this' \<Longrightarrow>
           unat (m_partition this')
             = (unat (m_partition this) + length devs) mod unat (multiBuffering ty)
           \<and> m_partition this' < multiBuffering ty"
proof (induction devs arbitrary: this)
  case Nil
  then show ?case by (simp add: word_less_nat_alt)
next
  case (Cons dev devs)
  obtain tr r where rd: "render ndebug ty dev this = (tr, r)"
    by (cases "render ndebug ty dev this")
  show ?case
  proof (cases r)
    case (Inl e)
    then show ?thesis using Cons.prems rd by simp
  next
    case (Inr this1)
    have p1: "m_partition this1 = (m_partition this + 1) mod multiBuffering ty"
      using render_partition rd Inr by blast
    have lt1: "m_partition this1 < multiBuffering ty"
      using p1 next_partition_less[OF assms] by simp
    have rest: "render_frames ndebug ty devs this1 = Inr this'"
      using Cons.prems rd Inr by simp
    have u1: "unat (m_partition this1)
                = (unat (m_partition this) + 1) mod unat (multiBuffering ty)"
      using p1 unat_next_partition[OF Cons.prems(1)] by simp
    have "unat (m_partition this')
            = ((unat (m_partition this) + 1) mod unat (multiBuffering ty) + length devs)
                mod unat (multiBuffering ty)"
      using Cons.IH[OF lt1 rest] u1 by simp
    also have "\<dots> = (unat (m_partition this) + length (dev # devs)) mod unat (multiBuffering ty)"
      by (simp add: mod_simps algebra_simps)
    finally show ?thesis using Cons.IH[OF lt1 rest] by simp
  qed
qed

lemma buildPrograms_partition:
  "buildPrograms ans this = (ok, t) \<Longrightarrow> m_partition t = m_partition this"
  by (auto simp add: buildPrograms_def component_initialise_def Let_def split: if_splits)
lemma buildMaterials_partition:
  "buildMaterials ans this = (ok, t) \<Longrightarrow> m_partition t = m_partition this"
  by (auto simp add: buildMaterials_def component_initialise_def Let_def)
lemma buildDynamicObjectBuffers_partition:
  "buildDynamicObjectBuffers ty ans scene this = (ok, t) \<Longrightarrow> m_partition t = m_partition this"
  by (auto simp add: buildDynamicObjectBuffers_def Let_def split: prod.splits if_splits)
lemma buildLightBuffers_partition:
  "buildLightBuffers ty ans scene this = (ok, t) \<Longrightarrow> m_partition t = m_partition this"
  by (auto simp add: buildLightBuffers_def Let_def split: prod.splits if_splits)
lemma buildGeometry_partition:
  "buildGeometry ans this = (ok, t) \<Longrightarrow> m_partition t = m_partition this"
  by (auto simp add: buildGeometry_def component_initialise_def Let_def)
lemma buildFramebuffers_partition:
  "buildFramebuffers a b this = (ok, t) \<Longrightarrow> m_partition t = m_partition this"
  by (auto simp add: buildFramebuffers_def component_initialise_def Let_def split: if_splits)
lemma buildUniforms_partition:
  "buildUniforms a this = (ok, t) \<Longrightarrow> m_partition t = m_partition this"
  by (auto simp add: buildUniforms_def component_initialise_def Let_def)
lemma setInternalResolution_partition:
  "m_partition (setInternalResolution ans res this) = m_partition this"
proof -
  have fb: "\<And>a b t. m_partition (snd (buildFramebuffers a b t)) = m_partition t"
    using buildFramebuffers_partition by (metis prod.collapse)
  have un: "\<And>a t. m_partition (snd (buildUniforms a t)) = m_partition t"
    using buildUniforms_partition by (metis prod.collapse)
  show ?thesis by (simp add: setInternalResolution_def Let_def fb un)
qed
lemma setDisplayResolution_partition:
  "m_partition (setDisplayResolution res this) = m_partition this"
  by (simp add: setDisplayResolution_def)
lemma fillDynamicInstances_partition:
  "m_partition (fillDynamicInstances scene ms this) = m_partition this"
  by (simp add: fillDynamicInstances_def)

lemma initialise_partition:
  "m_partition (snd (initialise ty ans scene_ptr scene sceneMeshes internalRes displayRes this))
     = m_partition this"
proof -
  let ?this0 = "this\<lparr>m_scene := Some scene_ptr\<rparr>"
  obtain ok1 t1 where b1: "buildPrograms ans ?this0 = (ok1, t1)" by (cases "buildPrograms ans ?this0")
  obtain ok2 t2 where b2: "buildMaterials ans t1 = (ok2, t2)" by (cases "buildMaterials ans t1")
  obtain ok3 t3 where b3: "buildDynamicObjectBuffers ty ans scene t2 = (ok3, t3)"
    by (cases "buildDynamicObjectBuffers ty ans scene t2")
  obtain ok4 t4 where b4: "buildLightBuffers ty ans scene t3 = (ok4, t4)"
    by (cases "buildLightBuffers ty ans scene t3")
  obtain ok5 t5 where b5: "buildGeometry ans t4 = (ok5, t5)" by (cases "buildGeometry ans t4")
  let ?t6 = "setDisplayResolution displayRes (setInternalResolution ans internalRes t5)"
  obtain ok7 t7 where b7: "buildFramebuffers (gbuffer_ok ans) (lbuffer_ok ans) ?t6 = (ok7, t7)"
    by (cases "buildFramebuffers (gbuffer_ok ans) (lbuffer_ok ans) ?t6")
  obtain ok8 t8 where b8: "buildUniforms (uniforms_ok ans) t7 = (ok8, t8)"
    by (cases "buildUniforms (uniforms_ok ans) t7")
  have p1: "m_partition t1 = m_partition this"
    using buildPrograms_partition[OF b1] by simp
  have p2: "m_partition t2 = m_partition this"
    using buildMaterials_partition[OF b2] p1 by simp
  have p3: "m_partition t3 = m_partition this"
    using buildDynamicObjectBuffers_partition[OF b3] p2 by simp
  have p4: "m_partition t4 = m_partition this"
    using buildLightBuffers_partition[OF b4] p3 by simp
  have p5: "m_partition t5 = m_partition this"
    using buildGeometry_partition[OF b5] p4 by simp
  have p7: "m_partition t7 = m_partition this"
    using buildFramebuffers_partition[OF b7] p5
    by (simp add: setDisplayResolution_partition setInternalResolution_partition)
  have p8: "m_partition t8 = m_partition this"
    using buildUniforms_partition[OF b8] p7 by simp
  show ?thesis
    using b1 b2 b3 b4 b5 b7 b8 p1 p2 p3 p4 p5 p7 p8
    by (simp add: initialise_def Let_def fillDynamicInstances_partition)
qed

text \<open>
  Claim C4. With a non-zero partition count and a partition index below it, every
  \<open>render\<close> that returns leaves the index at \<open>(index + 1) mod multiBuffering\<close>, again
  below the partition count; a run of completed frames advances it by the number of
  frames, modulo the partition count. No other member function changes it: not the mode
  and resolution setters, not \<open>initialise\<close>, and not \<open>clean\<close>. A fresh renderer starts
  at partition 0.
\<close>

theorem partition_rotation:
  assumes "multiBuffering ty \<noteq> 0" and "m_partition this < multiBuffering ty"
  shows "(\<forall>tr this'. render ndebug ty dev this = (tr, Inr this') \<longrightarrow>
            m_partition this' = (m_partition this + 1) mod multiBuffering ty
            \<and> unat (m_partition this') = (unat (m_partition this) + 1) mod unat (multiBuffering ty)
            \<and> m_partition this' < multiBuffering ty)
       \<and> (\<forall>this'. render_frames ndebug ty devs this = Inr this' \<longrightarrow>
            unat (m_partition this')
              = (unat (m_partition this) + length devs) mod unat (multiBuffering ty)
            \<and> m_partition this' < multiBuffering ty)
       \<and> m_partition (setThreadingMode threads this) = m_partition this
       \<and> m_partition (setRenderingMode deferred this) = m_partition this
       \<and> m_partition (setInternalResolution ans internalRes this) = m_partition this
       \<and> m_partition (setDisplayResolution displayRes this) = m_partition this
       \<and> m_partition (snd (initialise ty ans scene_ptr scene sceneMeshes internalRes displayRes this))
           = m_partition this
       \<and> m_partition (Renderer_clean this) = m_partition this
       \<and> m_partition (Renderer_default ty) = 0"
proof -
  have one: "\<forall>tr this'. render ndebug ty dev this = (tr, Inr this') \<longrightarrow>
            m_partition this' = (m_partition this + 1) mod multiBuffering ty
            \<and> unat (m_partition this') = (unat (m_partition this) + 1) mod unat (multiBuffering ty)
            \<and> m_partition this' < multiBuffering ty"
    using render_partition unat_next_partition[OF assms(2)] next_partition_less[OF assms(1)]
    by metis
  have many: "\<forall>this'. render_frames ndebug ty devs this = Inr this' \<longrightarrow>
            unat (m_partition this')
              = (unat (m_partition this) + length devs) mod unat (multiBuffering ty)
            \<and> m_partition this' < multiBuffering ty"
    using render_frames_partition[OF assms] by blast
  show ?thesis
    by (intro conjI one many)
       (simp_all add: setThreadingMode_def setRenderingMode_def setInternalResolution_partition
          setDisplayResolution_partition Renderer_clean_def Renderer_default_def
          initialise_partition)
qed

text \<open>
  Claim C4, witness: one frame, and four frames, of triple buffering starting at 0.
\<close>

theorem partition_rotation_witness:
  "multiBuffering example_types \<noteq> 0
   \<and> m_partition frame_in_flight < multiBuffering example_types
   \<and> map_sum id m_partition (snd (render False example_types device_idle frame_in_flight)) = Inr 1
   \<and> map_sum id m_partition
        (render_frames False example_types [device_idle, device_idle, device_idle, device_idle]
           frame_in_flight) = Inr 1"
  using partition_rotation [of example_types frame_in_flight False device_idle
      "[device_idle, device_idle, device_idle, device_idle]"]
  by (simp add: frame_eval device_idle_def)

text \<open>
  Claim C8, the code at a failing input. Starting from a fresh renderer, the programs are
  built and the materials fail: \<open>initialise\<close> returns false at once, leaving the scene
  pointer set and the programs initialised. \<open>clean\<close> would have reset both; the state
  returned differs from the uninitialised one.
\<close>

theorem initialise_failure_not_cleaned:
  "initialise example_types (answers_all_ok\<lparr>materials_ok := False\<rparr>) 1 empty_scene []
       (1280, 720) (1280, 720) (Renderer_default example_types)
     = (False, (Renderer_default example_types)\<lparr>m_scene := Some 1, m_programs := True\<rparr>)
   \<and> Renderer_clean ((Renderer_default example_types)\<lparr>m_scene := Some 1, m_programs := True\<rparr>)
       = Renderer_default example_types
   \<and> (Renderer_default example_types)\<lparr>m_scene := Some 1, m_programs := True\<rparr>
       \<noteq> Renderer_default example_types"
  apply (intro conjI)
    apply (simp add: initialise_def buildPrograms_def buildMaterials_def component_initialise_def
      answers_all_ok_def Let_def Renderer_default_def)
   apply (simp add: Renderer_clean_def Renderer_default_def clean_def isInitialised_def
      Buffer_isInitialised_def PersistentMappedBuffer_default_def MultiDrawCommands_default_def
      example_types_def Sync_clean_def)
  apply (simp add: Renderer_default_def)
  done


lemma buildPrograms_scene:
  "buildPrograms ans this = (ok, t) \<Longrightarrow> m_scene t = m_scene this"
  by (auto simp add: buildPrograms_def component_initialise_def Let_def split: if_splits)
lemma buildMaterials_scene:
  "buildMaterials ans this = (ok, t) \<Longrightarrow> m_scene t = m_scene this"
  by (auto simp add: buildMaterials_def component_initialise_def Let_def)
lemma buildDynamicObjectBuffers_scene:
  "buildDynamicObjectBuffers ty ans scene this = (ok, t) \<Longrightarrow> m_scene t = m_scene this"
  by (auto simp add: buildDynamicObjectBuffers_def Let_def split: prod.splits if_splits)
lemma buildLightBuffers_scene:
  "buildLightBuffers ty ans scene this = (ok, t) \<Longrightarrow> m_scene t = m_scene this"
  by (auto simp add: buildLightBuffers_def Let_def split: prod.splits if_splits)
lemma buildGeometry_scene:
  "buildGeometry ans this = (ok, t) \<Longrightarrow> m_scene t = m_scene this"
  by (auto simp add: buildGeometry_def component_initialise_def Let_def)
lemma buildFramebuffers_scene:
  "buildFramebuffers a b this = (ok, t) \<Longrightarrow> m_scene t = m_scene this"
  by (auto simp add: buildFramebuffers_def component_initialise_def Let_def split: if_splits)
lemma buildUniforms_scene:
  "buildUniforms a this = (ok, t) \<Longrightarrow> m_scene t = m_scene this"
  by (auto simp add: buildUniforms_def component_initialise_def Let_def)
lemma setInternalResolution_scene:
  "m_scene (setInternalResolution ans res this) = m_scene this"
proof -
  have fb: "\<And>a b t. m_scene (snd (buildFramebuffers a b t)) = m_scene t"
    using buildFramebuffers_scene by (metis prod.collapse)
  have un: "\<And>a t. m_scene (snd (buildUniforms a t)) = m_scene t"
    using buildUniforms_scene by (metis prod.collapse)
  show ?thesis by (simp add: setInternalResolution_def Let_def fb un)
qed

lemma initialise_keeps_scene:
  "m_scene (snd (initialise ty ans scene_ptr scene sceneMeshes internalRes displayRes this))
     = Some scene_ptr"
proof -
  let ?this0 = "this\<lparr>m_scene := Some scene_ptr\<rparr>"
  obtain ok1 t1 where b1: "buildPrograms ans ?this0 = (ok1, t1)" by (cases "buildPrograms ans ?this0")
  obtain ok2 t2 where b2: "buildMaterials ans t1 = (ok2, t2)" by (cases "buildMaterials ans t1")
  obtain ok3 t3 where b3: "buildDynamicObjectBuffers ty ans scene t2 = (ok3, t3)"
    by (cases "buildDynamicObjectBuffers ty ans scene t2")
  obtain ok4 t4 where b4: "buildLightBuffers ty ans scene t3 = (ok4, t4)"
    by (cases "buildLightBuffers ty ans scene t3")
  obtain ok5 t5 where b5: "buildGeometry ans t4 = (ok5, t5)" by (cases "buildGeometry ans t4")
  let ?t6 = "setDisplayResolution displayRes (setInternalResolution ans internalRes t5)"
  obtain ok7 t7 where b7: "buildFramebuffers (gbuffer_ok ans) (lbuffer_ok ans) ?t6 = (ok7, t7)"
    by (cases "buildFramebuffers (gbuffer_ok ans) (lbuffer_ok ans) ?t6")
  obtain ok8 t8 where b8: "buildUniforms (uniforms_ok ans) t7 = (ok8, t8)"
    by (cases "buildUniforms (uniforms_ok ans) t7")
  have p1: "m_scene t1 = Some scene_ptr"
    using buildPrograms_scene[OF b1] by simp
  have p2: "m_scene t2 = Some scene_ptr"
    using buildMaterials_scene[OF b2] p1 by simp
  have p3: "m_scene t3 = Some scene_ptr"
    using buildDynamicObjectBuffers_scene[OF b3] p2 by simp
  have p4: "m_scene t4 = Some scene_ptr"
    using buildLightBuffers_scene[OF b4] p3 by simp
  have p5: "m_scene t5 = Some scene_ptr"
    using buildGeometry_scene[OF b5] p4 by simp
  have p7: "m_scene t7 = Some scene_ptr"
    using buildFramebuffers_scene[OF b7] p5
    by (simp add: setDisplayResolution_def setInternalResolution_scene)
  have p8: "m_scene t8 = Some scene_ptr"
    using buildUniforms_scene[OF b8] p7 by simp
  show ?thesis
    using b1 b2 b3 b4 b5 b7 b8 p1 p2 p3 p4 p5 p7 p8
    by (simp add: initialise_def Let_def fillDynamicInstances_def)
qed

lemma initialise_never_cleans:
  "snd (initialise ty ans scene_ptr scene sceneMeshes internalRes displayRes this)
     \<noteq> Renderer_clean this'"
proof
  assume "snd (initialise ty ans scene_ptr scene sceneMeshes internalRes displayRes this)
            = Renderer_clean this'"
  then have "m_scene (snd (initialise ty ans scene_ptr scene sceneMeshes internalRes displayRes this))
               = m_scene (Renderer_clean this')" by simp
  then show False by (simp add: initialise_keeps_scene Renderer_clean_def)
qed

lemma ModifiedRange_ctor_zero: "ModifiedRange_ctor 0 0 = \<lparr>offset = 0, length_bytes = 0\<rparr>"
  by (simp add: ModifiedRange_ctor_def)

text \<open>
  Claim C10. With deferred rendering off, \<open>updatePointLights\<close> and \<open>updateSpotlights\<close>
  return what \<open>processLightUniforms\<close> wrote to the uniform block, leave the memory of the
  light-transform buffer as it was and report offset 0, length 0 for the transforms; a
  flush notification over that range covers no byte.
\<close>

theorem forward_lights_write_no_transforms:
  assumes "\<not> m_deferredRender this"
  shows "updatePointLights ndebug ty this countSize lightSize block uniforms_fn transforms_fn lights
           transformOffset lightTransformMemory
         = Inr (fst (processLightUniforms this countSize lightSize block lights uniforms_fn),
                lightTransformMemory,
                \<lparr>lv_uniforms = snd (processLightUniforms this countSize lightSize block lights
                                      uniforms_fn),
                 lv_transforms = \<lparr>offset = 0, length_bytes = 0\<rparr>\<rparr>)
       \<and> updateSpotlights ndebug ty this countSize lightSize block uniforms_fn transforms_fn lights
           transformOffset lightTransformMemory
         = Inr (fst (processLightUniforms this countSize lightSize block lights uniforms_fn),
                lightTransformMemory,
                \<lparr>lv_uniforms = snd (processLightUniforms this countSize lightSize block lights
                                      uniforms_fn),
                 lv_transforms = \<lparr>offset = 0, length_bytes = 0\<rparr>\<rparr>)
       \<and> \<Union> (flushed_bytes ` set (notifyModifiedDataRange (m_lightTransforms this)
                                      \<lparr>offset = 0, length_bytes = 0\<rparr>)) = {}"
  using assms
  by (simp add: updatePointLights_def updateSpotlights_def ModifiedRange_ctor_zero
      notifyModifiedDataRange_def flushed_bytes_def split: prod.splits)

lemma loop_unfold2:
  "processLightUniforms_loop f s [a, b] 2 0 blk
     = blk\<lparr>objects := (objects blk)(0 \<mapsto> f a s, 1 \<mapsto> f b s)\<rparr>"
  by (simp add: processLightUniforms_loop.simps[of f s "[a, b]" 2 0]
        processLightUniforms_loop.simps[of f s "[a, b]" 2 1]
        processLightUniforms_loop.simps[of f s "[a, b]" 2 2])

text \<open>
  Claim C10, witness: two point lights in forward mode.
\<close>

theorem forward_lights_write_no_transforms_witness:
  "updatePointLights False example_types frame_in_flight 16 32
       \<lparr>data = \<lparr>count = 0, objects = Map.empty\<rparr>, block_offset = 256\<rparr>
       (\<lambda>l s. (l :: nat, s)) (\<lambda>l. l) [7, 9] 1 Map.empty
     = Inr (\<lparr>count = 2, objects = [0 \<mapsto> (7, True), 1 \<mapsto> (9, True)]\<rparr>, Map.empty,
            \<lparr>lv_uniforms = \<lparr>offset = 256, length_bytes = 80\<rparr>,
             lv_transforms = \<lparr>offset = 0, length_bytes = 0\<rparr>\<rparr>)"
  using forward_lights_write_no_transforms [of frame_in_flight False example_types 16 32
      "\<lparr>data = \<lparr>count = 0, objects = Map.empty\<rparr>, block_offset = 256\<rparr>"
      "\<lambda>l s. (l :: nat, s)" "\<lambda>l. l" "[7, 9]" 1 Map.empty]
  by (simp add: frame_in_flight_def Renderer_default_def processLightUniforms_def Let_def
      loop_unfold2 ModifiedRange_ctor_def)


section \<open>Theorems: dynamic objects\<close>

lemma size_t_succ: "(of_nat n :: size_t) + 1 = of_nat (Suc n)"
  by simp

lemma GLuint_plus: "(of_nat a :: GLuint) + of_nat b = of_nat (a + b)"
  by simp

lemma forEachInstance_appends:
  "forEachInstance (\<lambda>idx inst c. c\<lparr>written := written c @ g idx inst\<rparr>) byId ids (of_nat n0, c)
     = (of_nat (n0 + length ids),
        c\<lparr>written := written c
             @ concat (map (\<lambda>(i, id). g (of_nat i) (byId id)) (enumerate n0 ids))\<rparr>)"
proof (induction ids arbitrary: n0 c)
  case Nil
  then show ?case by simp
next
  case (Cons id rest)
  show ?case
    by (simp del: of_nat_Suc of_nat_add add: size_t_succ Cons.IH)
qed

lemma walk_instances:
  "forEachDynamicMesh_from J
       [\<lambda>meshIndex m ids. forEachInstance (\<lambda>idx inst c. c\<lparr>written := written c @ g idx inst\<rparr>)
                              byId ids]
       dynamics (of_nat n0, c)
     = (of_nat (n0 + totalDynamicInstances dynamics),
        c\<lparr>written := written c
             @ concat (map (\<lambda>(b, mi). concat (map (\<lambda>(i, id). g (of_nat i) (byId id))
                                               (enumerate b (instances mi))))
                         (withBases n0 dynamics))\<rparr>)"
proof (induction dynamics arbitrary: J n0 c)
  case Nil
  then show ?case by (simp add: totalDynamicInstances_def)
next
  case (Cons mi rest)
  show ?case
    by (simp del: of_nat_Suc of_nat_add
        add: forEachInstance_appends Cons.IH totalDynamicInstances_def add.assoc)
qed

lemma walk_meshes:
  assumes base: "baseInstance c = of_nat b0"
  shows "forEachDynamicMesh_from (of_nat j0) [addDrawCommand] dynamics c
         = c\<lparr>written := written c
                @ map (\<lambda>(j, b, mi). DrawCommandWrite (of_nat j)
                         \<lparr>cmd_elementCount = elementCount (mesh mi),
                          cmd_instanceCount = of_nat (length (instances mi)),
                          cmd_elementOffset = elementsIndex (mesh mi),
                          cmd_vertexOffset = verticesIndex (mesh mi),
                          cmd_baseInstance = of_nat b\<rparr>)
                    (enumerate j0 (withBases b0 dynamics)),
              baseInstance := of_nat (b0 + totalDynamicInstances dynamics)\<rparr>"
  using base
proof (induction dynamics arbitrary: j0 b0 c)
  case Nil
  then show ?case by (simp add: totalDynamicInstances_def)
next
  case (Cons mi rest)
  let ?c1 = "addDrawCommand (of_nat j0) (mesh mi) (instances mi) c"
  have b1: "baseInstance ?c1 = of_nat (b0 + length (instances mi))"
    using Cons.prems by (simp add: addDrawCommand_def Let_def)
  show ?case
    using Cons.IH[OF b1, of "Suc j0"] Cons.prems
    by (simp del: of_nat_Suc of_nat_add
        add: size_t_succ GLuint_plus addDrawCommand_def Let_def totalDynamicInstances_def
          add.assoc)
qed

lemma walk_single:
  assumes base: "baseInstance c = of_nat n0"
  shows "forEachDynamicMesh_from (of_nat j0)
           [\<lambda>meshIndex m ids. forEachInstance (\<lambda>idx inst c. c\<lparr>written := written c @ g idx inst\<rparr>)
                                  byId ids,
            withCounter addDrawCommand]
           dynamics (of_nat n0, c)
         = (of_nat (n0 + totalDynamicInstances dynamics),
            c\<lparr>written := written c
                 @ concat (map (\<lambda>(j, b, mi).
                       concat (map (\<lambda>(i, id). g (of_nat i) (byId id))
                                 (enumerate b (instances mi)))
                       @ [DrawCommandWrite (of_nat j)
                            \<lparr>cmd_elementCount = elementCount (mesh mi),
                             cmd_instanceCount = of_nat (length (instances mi)),
                             cmd_elementOffset = elementsIndex (mesh mi),
                             cmd_vertexOffset = verticesIndex (mesh mi),
                             cmd_baseInstance = of_nat b\<rparr>])
                     (enumerate j0 (withBases n0 dynamics))),
              baseInstance := of_nat (n0 + totalDynamicInstances dynamics)\<rparr>)"
  using base
proof (induction dynamics arbitrary: j0 n0 c)
  case Nil
  then show ?case by (simp add: totalDynamicInstances_def)
next
  case (Cons mi rest)
  let ?c1 = "c\<lparr>written := written c
                 @ concat (map (\<lambda>(i, id). g (of_nat i) (byId id)) (enumerate n0 (instances mi)))\<rparr>"
  let ?c2 = "addDrawCommand (of_nat j0) (mesh mi) (instances mi) ?c1"
  have b2: "baseInstance ?c2 = of_nat (n0 + length (instances mi))"
    using Cons.prems by (simp add: addDrawCommand_def Let_def)
  show ?case
    using Cons.IH[OF b2, of "Suc j0"] Cons.prems
    by (simp del: of_nat_Suc of_nat_add
        add: size_t_succ GLuint_plus forEachInstance_appends withCounter_def addDrawCommand_def
          Let_def totalDynamicInstances_def add.assoc)
qed

lemma addTransform_appender:
  "addTransform f = (\<lambda>idx inst c. c\<lparr>written := written c
       @ [TransformWrite idx (f (getTransformationMatrix inst))]\<rparr>)"
  by (intro ext) (simp add: addTransform_def)

lemma addMaterialID_appender:
  "addMaterialID m = (\<lambda>idx inst c. c\<lparr>written := written c
       @ [MaterialIDWrite idx (m (getMaterialId inst))]\<rparr>)"
  by (intro ext) (simp add: addMaterialID_def)

lemma addTransformAndMaterialID_appender:
  "addTransformAndMaterialID f m = (\<lambda>idx inst c. c\<lparr>written := written c
       @ [TransformWrite idx (f (getTransformationMatrix inst)),
          MaterialIDWrite idx (m (getMaterialId inst))]\<rparr>)"
  by (intro ext) (simp add: addTransformAndMaterialID_def addTransform_def addMaterialID_def)

lemma commandsOf_append: "commandsOf (xs @ ys) = commandsOf xs @ commandsOf ys"
  by (induction xs rule: commandsOf.induct) simp_all
lemma transformsOf_append: "transformsOf (xs @ ys) = transformsOf xs @ transformsOf ys"
  by (induction xs rule: transformsOf.induct) simp_all
lemma materialIDsOf_append: "materialIDsOf (xs @ ys) = materialIDsOf xs @ materialIDsOf ys"
  by (induction xs rule: materialIDsOf.induct) simp_all

lemma commandsOf_concat: "commandsOf (concat xss) = concat (map commandsOf xss)"
  by (induction xss) (simp_all add: commandsOf_append)
lemma transformsOf_concat: "transformsOf (concat xss) = concat (map transformsOf xss)"
  by (induction xss) (simp_all add: transformsOf_append)
lemma materialIDsOf_concat: "materialIDsOf (concat xss) = concat (map materialIDsOf xss)"
  by (induction xss) (simp_all add: materialIDsOf_append)

lemma concat_map_singleton: "concat (map (\<lambda>x. [h x]) xs) = map h xs"
  by (induction xs) simp_all

lemma concat_map_Nil: "concat (map (\<lambda>x. []) xs) = []"
  by (induction xs) simp_all

lemma map_enumerate_drop_index: "map (\<lambda>(j, x). h x) (enumerate n xs) = map h xs"
  by (induction xs arbitrary: n) simp_all

text \<open>The three tasks of the multi-threaded mode.\<close>

lemma transformTask_stores:
  "written (forEachDynamicMeshInstance byId (addTransform f) [] dynamics
              (\<lparr>baseInstance = 0, written = []\<rparr> :: ('t, 'k) captured))
     = map (\<lambda>(i, v). TransformWrite i v)
         (expectedInstanceData (\<lambda>id. f (getTransformationMatrix (byId id))) dynamics)"
proof -
  have "forEachDynamicMesh_from 0
          [\<lambda>meshIndex m ids. forEachInstance (addTransform f) byId ids] dynamics
          (of_nat 0, (\<lparr>baseInstance = 0, written = []\<rparr> :: ('t, 'k) captured))
        = (of_nat (0 + totalDynamicInstances dynamics),
           \<lparr>baseInstance = 0, written = []\<rparr>\<lparr>written := written (\<lparr>baseInstance = (0::GLuint), written = []\<rparr> :: ('t, 'k) captured)
              @ concat (map (\<lambda>(b, mi). concat (map (\<lambda>(i, id).
                    [TransformWrite (of_nat i) (f (getTransformationMatrix (byId id)))])
                    (enumerate b (instances mi)))) (withBases 0 dynamics))\<rparr>)"
    unfolding addTransform_appender by (rule walk_instances)
  then show ?thesis
    by (simp add: forEachDynamicMeshInstance_def forEachDynamicMesh_def expectedInstanceData_def
        map_concat comp_def case_prod_unfold concat_map_singleton)
qed

lemma materialIDTask_stores:
  "written (forEachDynamicMeshInstance byId (addMaterialID m) [] dynamics
              (\<lparr>baseInstance = 0, written = []\<rparr> :: ('t, 'k) captured))
     = map (\<lambda>(i, v). MaterialIDWrite i v)
         (expectedInstanceData (\<lambda>id. m (getMaterialId (byId id))) dynamics)"
proof -
  have "forEachDynamicMesh_from 0
          [\<lambda>meshIndex m' ids. forEachInstance (addMaterialID m) byId ids] dynamics
          (of_nat 0, (\<lparr>baseInstance = 0, written = []\<rparr> :: ('t, 'k) captured))
        = (of_nat (0 + totalDynamicInstances dynamics),
           \<lparr>baseInstance = 0, written = []\<rparr>\<lparr>written := written (\<lparr>baseInstance = (0::GLuint), written = []\<rparr> :: ('t, 'k) captured)
              @ concat (map (\<lambda>(b, mi). concat (map (\<lambda>(i, id).
                    [MaterialIDWrite (of_nat i) (m (getMaterialId (byId id)))])
                    (enumerate b (instances mi)))) (withBases 0 dynamics))\<rparr>)"
    unfolding addMaterialID_appender by (rule walk_instances)
  then show ?thesis
    by (simp add: forEachDynamicMeshInstance_def forEachDynamicMesh_def expectedInstanceData_def
        map_concat comp_def case_prod_unfold concat_map_singleton)
qed

lemma commandTask_stores:
  "forEachDynamicMesh [addDrawCommand] dynamics
       (\<lparr>baseInstance = 0, written = []\<rparr> :: ('t, 'k) captured)
     = \<lparr>baseInstance = of_nat (totalDynamicInstances dynamics),
        written = map (\<lambda>(i, v). DrawCommandWrite i v) (expectedCommands dynamics)\<rparr>"
proof -
  have "forEachDynamicMesh_from (of_nat 0) [addDrawCommand] dynamics
          (\<lparr>baseInstance = 0, written = []\<rparr> :: ('t, 'k) captured)
        = \<lparr>baseInstance = 0, written = []\<rparr>
            \<lparr>written := written (\<lparr>baseInstance = (0::GLuint), written = []\<rparr> :: ('t, 'k) captured)
                @ map (\<lambda>(j, b, mi). DrawCommandWrite (of_nat j)
                         \<lparr>cmd_elementCount = elementCount (mesh mi),
                          cmd_instanceCount = of_nat (length (instances mi)),
                          cmd_elementOffset = elementsIndex (mesh mi),
                          cmd_vertexOffset = verticesIndex (mesh mi),
                          cmd_baseInstance = of_nat b\<rparr>)
                    (enumerate 0 (withBases 0 dynamics)),
              baseInstance := of_nat (0 + totalDynamicInstances dynamics)\<rparr>"
    by (rule walk_meshes) simp
  then show ?thesis
    by (simp add: forEachDynamicMesh_def expectedCommands_def comp_def case_prod_unfold)
qed

text \<open>The single walk of the single-threaded mode, seen through the three projections.\<close>

lemma single_stores:
  fixes c :: "('t, 'k) captured" and byId :: "InstanceId \<Rightarrow> 'm Instance" and f :: "'m \<Rightarrow> 't"
    and m :: "MaterialId \<Rightarrow> 'k" and dynamics :: "MeshInstances list"
  defines "c \<equiv> forEachDynamicMeshInstance byId (addTransformAndMaterialID f m) [addDrawCommand]
                  dynamics (\<lparr>baseInstance = 0, written = []\<rparr> :: ('t, 'k) captured)"
  shows "baseInstance c = of_nat (totalDynamicInstances dynamics)"
    and "commandsOf (written c) = expectedCommands dynamics"
    and "transformsOf (written c)
           = expectedInstanceData (\<lambda>id. f (getTransformationMatrix (byId id))) dynamics"
    and "materialIDsOf (written c)
           = expectedInstanceData (\<lambda>id. m (getMaterialId (byId id))) dynamics"
proof -
  let ?g = "\<lambda>idx inst. [TransformWrite idx (f (getTransformationMatrix inst)),
                        MaterialIDWrite idx (m (getMaterialId inst)) :: ('t, 'k) buffer_write]"
  let ?L = "enumerate 0 (withBases 0 dynamics)"
  let ?stores = "concat (map (\<lambda>(j, b, mi).
                       concat (map (\<lambda>(i, id). ?g (of_nat i) (byId id))
                                 (enumerate b (instances mi)))
                       @ [DrawCommandWrite (of_nat j)
                            \<lparr>cmd_elementCount = elementCount (mesh mi),
                             cmd_instanceCount = of_nat (length (instances mi)),
                             cmd_elementOffset = elementsIndex (mesh mi),
                             cmd_vertexOffset = verticesIndex (mesh mi),
                             cmd_baseInstance = of_nat b\<rparr>]) ?L)"
  have "forEachDynamicMesh_from (of_nat 0)
           [\<lambda>meshIndex m' ids. forEachInstance (addTransformAndMaterialID f m) byId ids,
            withCounter addDrawCommand]
           dynamics (of_nat 0, (\<lparr>baseInstance = 0, written = []\<rparr> :: ('t, 'k) captured))
         = (of_nat (0 + totalDynamicInstances dynamics),
            \<lparr>baseInstance = 0, written = []\<rparr>
              \<lparr>written := written (\<lparr>baseInstance = (0::GLuint), written = []\<rparr> :: ('t, 'k) captured)
                 @ ?stores,
               baseInstance := of_nat (0 + totalDynamicInstances dynamics)\<rparr>)"
    unfolding addTransformAndMaterialID_appender by (rule walk_single) simp
  then have c: "c = \<lparr>baseInstance = of_nat (totalDynamicInstances dynamics), written = ?stores\<rparr>"
    by (simp add: c_def forEachDynamicMeshInstance_def forEachDynamicMesh_def)
  show "baseInstance c = of_nat (totalDynamicInstances dynamics)"
    by (simp add: c)
  have inst_c: "\<And>b (ids :: InstanceId list).
      commandsOf (concat (map (\<lambda>(i, id). ?g (of_nat i) (byId id)) (enumerate b ids))) = []"
    by (simp add: commandsOf_concat comp_def case_prod_unfold)
  have inst_t: "\<And>b (ids :: InstanceId list).
      transformsOf (concat (map (\<lambda>(i, id). ?g (of_nat i) (byId id)) (enumerate b ids)))
        = map (\<lambda>(i, id). (of_nat i, f (getTransformationMatrix (byId id)))) (enumerate b ids)"
    by (simp add: transformsOf_concat comp_def case_prod_unfold concat_map_singleton)
  have inst_m: "\<And>b (ids :: InstanceId list).
      materialIDsOf (concat (map (\<lambda>(i, id). ?g (of_nat i) (byId id)) (enumerate b ids)))
        = map (\<lambda>(i, id). (of_nat i, m (getMaterialId (byId id)))) (enumerate b ids)"
    by (simp add: materialIDsOf_concat comp_def case_prod_unfold concat_map_singleton)
  show "commandsOf (written c) = expectedCommands dynamics"
    by (simp add: c commandsOf_concat commandsOf_append comp_def case_prod_unfold
        concat_map_singleton concat_map_Nil expectedCommands_def)
  show "transformsOf (written c)
           = expectedInstanceData (\<lambda>id. f (getTransformationMatrix (byId id))) dynamics"
    using map_enumerate_drop_index[of
        "\<lambda>x. map (\<lambda>p. (of_nat (fst p) :: size_t, f (getTransformationMatrix (byId (snd p)))))
               (enumerate (fst x) (instances (snd x)))" 0 "withBases 0 dynamics"]
    by (simp add: c transformsOf_concat transformsOf_append comp_def case_prod_unfold
        inst_t[unfolded case_prod_unfold] expectedInstanceData_def)
  show "materialIDsOf (written c)
           = expectedInstanceData (\<lambda>id. m (getMaterialId (byId id))) dynamics"
    using map_enumerate_drop_index[of
        "\<lambda>x. map (\<lambda>p. (of_nat (fst p) :: size_t, m (getMaterialId (byId (snd p)))))
               (enumerate (fst x) (instances (snd x)))" 0 "withBases 0 dynamics"]
    by (simp add: c materialIDsOf_concat materialIDsOf_append comp_def case_prod_unfold
        inst_m[unfolded case_prod_unfold] expectedInstanceData_def)
qed

lemma commandsOf_shuffles:
  "zs \<in> shuffles xs ys \<Longrightarrow> commandsOf zs \<in> shuffles (commandsOf xs) (commandsOf ys)"
proof (induction xs ys arbitrary: zs rule: shuffles.induct)
  case (3 x xs y ys)
  from "3.prems" consider zs' where "zs = x # zs'" "zs' \<in> shuffles xs (y # ys)"
    | zs' where "zs = y # zs'" "zs' \<in> shuffles (x # xs) ys"
    by auto
  then show ?case
  proof cases
    case 1
    then show ?thesis using "3.IH"(1)[of zs']
      by (cases x) (auto intro: Cons_in_shuffles_leftI)
  next
    case 2
    then show ?thesis using "3.IH"(2)[of zs']
      by (cases y) (auto intro: Cons_in_shuffles_rightI)
  qed
qed simp_all

lemma transformsOf_shuffles:
  "zs \<in> shuffles xs ys \<Longrightarrow> transformsOf zs \<in> shuffles (transformsOf xs) (transformsOf ys)"
proof (induction xs ys arbitrary: zs rule: shuffles.induct)
  case (3 x xs y ys)
  from "3.prems" consider zs' where "zs = x # zs'" "zs' \<in> shuffles xs (y # ys)"
    | zs' where "zs = y # zs'" "zs' \<in> shuffles (x # xs) ys"
    by auto
  then show ?case
  proof cases
    case 1
    then show ?thesis using "3.IH"(1)[of zs']
      by (cases x) (auto intro: Cons_in_shuffles_leftI)
  next
    case 2
    then show ?thesis using "3.IH"(2)[of zs']
      by (cases y) (auto intro: Cons_in_shuffles_rightI)
  qed
qed simp_all

lemma materialIDsOf_shuffles:
  "zs \<in> shuffles xs ys \<Longrightarrow> materialIDsOf zs \<in> shuffles (materialIDsOf xs) (materialIDsOf ys)"
proof (induction xs ys arbitrary: zs rule: shuffles.induct)
  case (3 x xs y ys)
  from "3.prems" consider zs' where "zs = x # zs'" "zs' \<in> shuffles xs (y # ys)"
    | zs' where "zs = y # zs'" "zs' \<in> shuffles (x # xs) ys"
    by auto
  then show ?case
  proof cases
    case 1
    then show ?thesis using "3.IH"(1)[of zs']
      by (cases x) (auto intro: Cons_in_shuffles_leftI)
  next
    case 2
    then show ?thesis using "3.IH"(2)[of zs']
      by (cases y) (auto intro: Cons_in_shuffles_rightI)
  qed
qed simp_all

lemma projections_of_commands:
  "commandsOf (map (\<lambda>(i, v). DrawCommandWrite i v) xs) = xs"
  "transformsOf (map (\<lambda>(i, v). DrawCommandWrite i v) xs) = []"
  "materialIDsOf (map (\<lambda>(i, v). DrawCommandWrite i v) xs) = []"
  by (induction xs) auto

lemma projections_of_transforms:
  "commandsOf (map (\<lambda>(i, v). TransformWrite i v) xs) = []"
  "transformsOf (map (\<lambda>(i, v). TransformWrite i v) xs) = xs"
  "materialIDsOf (map (\<lambda>(i, v). TransformWrite i v) xs) = []"
  by (induction xs) auto

lemma projections_of_materialIDs:
  "commandsOf (map (\<lambda>(i, v). MaterialIDWrite i v) xs) = []"
  "transformsOf (map (\<lambda>(i, v). MaterialIDWrite i v) xs) = []"
  "materialIDsOf (map (\<lambda>(i, v). MaterialIDWrite i v) xs) = xs"
  by (induction xs) auto

lemma interleaving_projections:
  assumes both: "both \<in> shuffles (map (\<lambda>(i, v). TransformWrite i v) ts)
                                    (map (\<lambda>(i, v). MaterialIDWrite i v) ms)"
    and ws: "ws \<in> shuffles both (map (\<lambda>(i, v). DrawCommandWrite i v) cs)"
  shows "commandsOf ws = cs" and "transformsOf ws = ts" and "materialIDsOf ws = ms"
proof -
  have "commandsOf both = []"
    using commandsOf_shuffles[OF both] by (simp add: projections_of_transforms projections_of_materialIDs)
  then show "commandsOf ws = cs"
    using commandsOf_shuffles[OF ws] by (simp add: projections_of_commands)
  have "transformsOf both = ts"
    using transformsOf_shuffles[OF both] by (simp add: projections_of_transforms projections_of_materialIDs)
  then show "transformsOf ws = ts"
    using transformsOf_shuffles[OF ws] by (simp add: projections_of_commands)
  have "materialIDsOf both = ms"
    using materialIDsOf_shuffles[OF both] by (simp add: projections_of_transforms projections_of_materialIDs)
  then show "materialIDsOf ws = ms"
    using materialIDsOf_shuffles[OF ws] by (simp add: projections_of_commands)
qed

lemma shuffles_nonempty: "shuffles xs ys \<noteq> {}"
  using splice_in_shuffles[of xs ys] by blast

text \<open>The memory after a sequence of stores is a function of its three projections.\<close>

lemma fold_perform:
  "fold (perform ty ptrs) ws mem
     = \<lparr>drawCommandMemory =
          fold (\<lambda>(i, v). store (drawCommandBuffer ptrs) (sizeof_MultiDrawElementsIndirectCommand ty) i v)
            (commandsOf ws) (drawCommandMemory mem),
        transformMemory =
          fold (\<lambda>(i, v). store (transformBuffer ptrs) (sizeof_ModelTransform ty) i v)
            (transformsOf ws) (transformMemory mem),
        materialIDMemory =
          fold (\<lambda>(i, v). store (materialIDBuffer ptrs) (sizeof_MaterialID ty) i v)
            (materialIDsOf ws) (materialIDMemory mem)\<rparr>"
proof (induction ws arbitrary: mem)
  case Nil
  then show ?case by simp
next
  case (Cons w ws)
  show ?case by (cases w) (simp_all add: Cons.IH)
qed

lemma stores_characterised:
  assumes "(base, ws) \<in> dynamicObjectStores byId f m this"
  shows "base = of_nat (totalDynamicInstances (m_dynamics this))
       \<and> commandsOf ws = expectedCommands (m_dynamics this)
       \<and> transformsOf ws
           = expectedInstanceData (\<lambda>id. f (getTransformationMatrix (byId id))) (m_dynamics this)
       \<and> materialIDsOf ws
           = expectedInstanceData (\<lambda>id. m (getMaterialId (byId id))) (m_dynamics this)"
proof (cases "m_multiThreaded this")
  case False
  then show ?thesis
    using assms single_stores[of byId f m "m_dynamics this"]
    by (simp add: dynamicObjectStores_def Let_def)
next
  case True
  then obtain both where
    both: "both \<in> shuffles
             (map (\<lambda>(i, v). TransformWrite i v)
                (expectedInstanceData (\<lambda>id. f (getTransformationMatrix (byId id))) (m_dynamics this)))
             (map (\<lambda>(i, v). MaterialIDWrite i v)
                (expectedInstanceData (\<lambda>id. m (getMaterialId (byId id))) (m_dynamics this)))"
    and ws: "ws \<in> shuffles both
               (map (\<lambda>(i, v). DrawCommandWrite i v) (expectedCommands (m_dynamics this)))"
    and base: "base = of_nat (totalDynamicInstances (m_dynamics this))"
    using assms
    by (auto simp add: dynamicObjectStores_def Let_def transformTask_stores
        materialIDTask_stores commandTask_stores)
  show ?thesis
    using interleaving_projections[OF both ws] base by simp
qed

lemma stores_nonempty: "dynamicObjectStores byId f m this \<noteq> {}"
  by (auto simp add: dynamicObjectStores_def Let_def shuffles_nonempty)

lemma const_image: "S \<noteq> {} \<Longrightarrow> (\<And>x. x \<in> S \<Longrightarrow> G x = v) \<Longrightarrow> G ` S = {v}"
  by auto

lemma stores_image:
  "(\<lambda>(base, stores). H base (fold (perform ty ptrs) stores mem))
      ` dynamicObjectStores byId f m this
   = {H (of_nat (totalDynamicInstances (m_dynamics this)))
        (storesPerformed ty ptrs (expectedCommands (m_dynamics this))
           (expectedInstanceData (\<lambda>id. f (getTransformationMatrix (byId id))) (m_dynamics this))
           (expectedInstanceData (\<lambda>id. m (getMaterialId (byId id))) (m_dynamics this)) mem)}"
proof (rule const_image[OF stores_nonempty])
  fix x assume x: "x \<in> dynamicObjectStores byId f m this"
  obtain base ws where bw: "x = (base, ws)" by (cases x)
  show "(case x of (base, stores) \<Rightarrow> H base (fold (perform ty ptrs) stores mem))
        = H (of_nat (totalDynamicInstances (m_dynamics this)))
        (storesPerformed ty ptrs (expectedCommands (m_dynamics this))
           (expectedInstanceData (\<lambda>id. f (getTransformationMatrix (byId id))) (m_dynamics this))
           (expectedInstanceData (\<lambda>id. m (getMaterialId (byId id))) (m_dynamics this)) mem)"
    using stores_characterised[of base ws byId f m this] x bw
    by (simp add: fold_perform storesPerformed_def)
qed

lemma updateDynamicObjects_outcome:
  "updateDynamicObjects ndebug ty byId f m this mem
   = {case pointer ndebug (multiBuffering ty) (buffer (m_objectDrawing this)) (m_partition this) of
        Inl e \<Rightarrow> Inl e
      | Inr commandPointer \<Rightarrow>
     (case pointer ndebug (multiBuffering ty) (m_objectTransforms this) (m_partition this) of
        Inl e \<Rightarrow> Inl e
      | Inr transformPointer \<Rightarrow>
     (case pointer ndebug (multiBuffering ty) (m_objectMaterialIDs this) (m_partition this) of
        Inl e \<Rightarrow> Inl e
      | Inr materialIDPointer \<Rightarrow>
          Inr (fst (updateDynamicObjects_finish ty this
                      (of_nat (totalDynamicInstances (m_dynamics this)))),
               snd (updateDynamicObjects_finish ty this
                      (of_nat (totalDynamicInstances (m_dynamics this)))),
               storesPerformed ty
                 \<lparr>drawCommandBuffer = commandPointer, transformBuffer = transformPointer,
                  materialIDBuffer = materialIDPointer\<rparr>
                 (expectedCommands (m_dynamics this))
                 (expectedInstanceData (\<lambda>id. f (getTransformationMatrix (byId id))) (m_dynamics this))
                 (expectedInstanceData (\<lambda>id. m (getMaterialId (byId id))) (m_dynamics this))
                 mem)))}"
proof -
  have img: "\<And>ptrs. (\<lambda>(base, stores).
                case updateDynamicObjects_finish ty this base of
                  (ranges, this') \<Rightarrow> Inr (ranges, this', fold (perform ty ptrs) stores mem))
               ` dynamicObjectStores byId f m this
         = {Inr (fst (updateDynamicObjects_finish ty this
                      (of_nat (totalDynamicInstances (m_dynamics this)))),
               snd (updateDynamicObjects_finish ty this
                      (of_nat (totalDynamicInstances (m_dynamics this)))),
               storesPerformed ty ptrs
                 (expectedCommands (m_dynamics this))
                 (expectedInstanceData (\<lambda>id. f (getTransformationMatrix (byId id))) (m_dynamics this))
                 (expectedInstanceData (\<lambda>id. m (getMaterialId (byId id))) (m_dynamics this))
                 mem)}"
    using stores_image[of "\<lambda>base mem'. Inr (fst (updateDynamicObjects_finish ty this base),
                                              snd (updateDynamicObjects_finish ty this base), mem')"
                          ty _ mem byId f m this]
    by (simp add: case_prod_unfold Let_def)
  show ?thesis
    by (simp add: updateDynamicObjects_def Let_def img split: sum.splits)
qed

text \<open>
  Claim C2. For every scene, renderer state and memory, the outcomes of
  \<open>updateDynamicObjects\<close> in multi-threaded mode, over all interleavings of the stores of
  its three concurrent passes, are the outcomes of the single-threaded mode with the
  threading flag set: the same modified ranges and the same contents of the draw-command,
  transform and material-ID memory. The single-threaded mode has exactly one outcome.
\<close>

theorem threading_modes_equivalent:
  "updateDynamicObjects ndebug ty byId toModelTransform materials (setThreadingMode True this) mem
     = map_sum id (\<lambda>(ranges, this', mem'). (ranges, setThreadingMode True this', mem'))
         ` updateDynamicObjects ndebug ty byId toModelTransform materials
             (setThreadingMode False this) mem
   \<and> (\<exists>out. updateDynamicObjects ndebug ty byId toModelTransform materials
               (setThreadingMode False this) mem = {out})"
  by (simp add: updateDynamicObjects_outcome setThreadingMode_def updateDynamicObjects_finish_def
      Let_def split: sum.splits)

lemma length_withBases: "length (withBases b dynamics) = length dynamics"
  by (induction dynamics arbitrary: b) simp_all

lemma withBases_nth:
  "j < length dynamics \<Longrightarrow>
     withBases b dynamics ! j
       = (b + sum_list (map (\<lambda>mi. length (instances mi)) (take j dynamics)), dynamics ! j)"
proof (induction dynamics arbitrary: j b)
  case Nil
  then show ?case by simp
next
  case (Cons mi rest)
  show ?case
  proof (cases j)
    case 0
    then show ?thesis by simp
  next
    case (Suc j')
    then have "j' < length rest" using Cons.prems by simp
    then show ?thesis using Cons.IH[of j' "b + length (instances mi)"] Suc by (simp add: add.assoc)
  qed
qed

lemma withBases_bounds:
  "(b, mi) \<in> set (withBases b0 dynamics) \<Longrightarrow>
     b0 \<le> b \<and> b + length (instances mi) \<le> b0 + totalDynamicInstances dynamics"
proof (induction dynamics arbitrary: b0)
  case Nil
  then show ?case by simp
next
  case (Cons x rest)
  then show ?case
    by (fastforce simp add: totalDynamicInstances_def)
qed

lemma ranges_tile:
  "concat (map (\<lambda>(b, mi). [b ..< b + length (instances mi)]) (withBases b0 dynamics))
     = [b0 ..< b0 + totalDynamicInstances dynamics]"
proof (induction dynamics arbitrary: b0)
  case Nil
  then show ?case by (simp add: totalDynamicInstances_def)
next
  case (Cons mi rest)
  have "[b0 ..< b0 + length (instances mi) + totalDynamicInstances rest]
          = [b0 ..< b0 + length (instances mi)]
            @ [b0 + length (instances mi) ..< b0 + length (instances mi) + totalDynamicInstances rest]"
    by (rule upt_add_eq_append) simp
  then show ?case
    using Cons.IH[of "b0 + length (instances mi)"]
    by (simp add: totalDynamicInstances_def add.assoc)
qed

lemma unat_GLuint_of_nat: "n < 2 ^ 32 \<Longrightarrow> unat (of_nat n :: GLuint) = n"
  by (simp add: unat_of_nat)

lemma unat_size_t_of_nat: "n < 2 ^ 32 \<Longrightarrow> unat (of_nat n :: size_t) = n"
proof -
  assume "n < 2 ^ 32"
  moreover have "(2::nat) ^ 32 < 2 ^ 64" by simp
  ultimately have "n < 2 ^ 64" by (rule less_trans)
  then show ?thesis by (simp add: unat_of_nat)
qed

lemma snd_in_set_enumerate:
  assumes "x \<in> set (enumerate n xs)"
  shows "snd x \<in> set xs"
proof -
  have a: "n \<le> fst x" "fst x < length xs + n" "xs ! (fst x - n) = snd x"
    using assms by (simp_all add: in_set_enumerate_eq)
  have "fst x - n < length xs" using a(1) a(2) by simp
  then have "xs ! (fst x - n) \<in> set xs" by (rule nth_mem)
  then show ?thesis using a(3) by simp
qed

lemma expected_ranges:
  assumes fits: "totalDynamicInstances dynamics < 2 ^ 32"
  shows "map (instanceRange \<circ> snd) (expectedCommands dynamics)
           = map (\<lambda>(b, mi). [b ..< b + length (instances mi)]) (withBases 0 dynamics)"
proof -
  have each: "\<And>b mi. (b, mi) \<in> set (withBases 0 dynamics) \<Longrightarrow>
      instanceRange \<lparr>cmd_elementCount = elementCount (mesh mi),
             cmd_instanceCount = of_nat (length (instances mi)),
             cmd_elementOffset = elementsIndex (mesh mi),
             cmd_vertexOffset = verticesIndex (mesh mi),
             cmd_baseInstance = of_nat b\<rparr> = [b ..< b + length (instances mi)]"
  proof -
    fix b mi assume "(b, mi) \<in> set (withBases 0 dynamics)"
    then have "b + length (instances mi) \<le> totalDynamicInstances dynamics"
      using withBases_bounds[of b mi 0 dynamics] by simp
    then have "b < 2 ^ 32" "length (instances mi) < 2 ^ 32" using fits by simp_all
    then show "instanceRange \<lparr>cmd_elementCount = elementCount (mesh mi),
             cmd_instanceCount = of_nat (length (instances mi)),
             cmd_elementOffset = elementsIndex (mesh mi),
             cmd_vertexOffset = verticesIndex (mesh mi),
             cmd_baseInstance = of_nat b\<rparr> = [b ..< b + length (instances mi)]"
      by (simp add: instanceRange_def unat_GLuint_of_nat)
  qed
  have "map (instanceRange \<circ> snd) (expectedCommands dynamics)
          = map (\<lambda>(j, b, mi). [b ..< b + length (instances mi)]) (enumerate 0 (withBases 0 dynamics))"
    unfolding expectedCommands_def map_map
  proof (rule map_cong)
    fix x assume "x \<in> set (enumerate 0 (withBases 0 dynamics))"
    then have "snd x \<in> set (withBases 0 dynamics)" by (rule snd_in_set_enumerate)
    then show "((instanceRange \<circ> snd) \<circ>
            (\<lambda>(j, b, mi). (of_nat j,
               \<lparr>cmd_elementCount = elementCount (mesh mi),
                cmd_instanceCount = of_nat (length (instances mi)),
                cmd_elementOffset = elementsIndex (mesh mi),
                cmd_vertexOffset = verticesIndex (mesh mi),
                cmd_baseInstance = of_nat b\<rparr>))) x
          = (case x of (j, b, mi) \<Rightarrow> [b ..< b + length (instances mi)])"
      using each[of "fst (snd x)" "snd (snd x)"] by (simp add: case_prod_unfold)
  qed simp
  then show ?thesis by (simp add: map_enumerate_drop_index)
qed

lemma expected_indices:
  assumes fits: "totalDynamicInstances dynamics < 2 ^ 32"
  shows "map (map unat) (instanceIndices dynamics)
           = map (\<lambda>(b, mi). [b ..< b + length (instances mi)]) (withBases 0 dynamics)"
proof -
  have each: "\<And>b mi. (b, mi) \<in> set (withBases 0 dynamics) \<Longrightarrow>
      map (\<lambda>(i, iid). unat (of_nat i :: size_t)) (enumerate b (instances mi))
        = [b ..< b + length (instances mi)]"
  proof -
    fix b mi assume "(b, mi) \<in> set (withBases 0 dynamics)"
    then have le: "b + length (instances mi) \<le> totalDynamicInstances dynamics"
      using withBases_bounds[of b mi 0 dynamics] by simp
    have "map (\<lambda>(i, iid). unat (of_nat i :: size_t)) (enumerate b (instances mi))
            = map fst (enumerate b (instances mi))"
    proof (rule map_cong)
      fix x assume "x \<in> set (enumerate b (instances mi))"
      then have "fst x < b + length (instances mi)"
        by (simp add: in_set_enumerate_eq add.commute)
      then have "fst x < 2 ^ 32" using le fits by simp
      then show "(case x of (i, iid) \<Rightarrow> unat (of_nat i :: size_t)) = fst x"
        by (cases x) (simp add: unat_size_t_of_nat)
    qed simp
    then show "map (\<lambda>(i, iid). unat (of_nat i :: size_t)) (enumerate b (instances mi))
        = [b ..< b + length (instances mi)]"
      by (simp add: add.commute)
  qed
  show ?thesis
    unfolding instanceIndices_def map_map
  proof (rule map_cong)
    fix x assume "x \<in> set (withBases 0 dynamics)"
    then show "(map unat \<circ> (\<lambda>(b, mi). map (\<lambda>(i, iid). (of_nat i :: size_t))
                                            (enumerate b (instances mi)))) x
          = (case x of (b, mi) \<Rightarrow> [b ..< b + length (instances mi)])"
      using each[of "fst x" "snd x"] by (simp add: case_prod_unfold comp_def)
  qed simp
qed

lemma expectedInstanceData_indices:
  "map fst (expectedInstanceData valueOf dynamics) = concat (instanceIndices dynamics)"
  by (simp add: expectedInstanceData_def instanceIndices_def map_concat comp_def
      case_prod_unfold)

lemma expectedCommands_nth:
  assumes "j < length dynamics"
  shows "expectedCommands dynamics ! j
           = (of_nat j,
              \<lparr>cmd_elementCount = elementCount (mesh (dynamics ! j)),
               cmd_instanceCount = of_nat (length (instances (dynamics ! j))),
               cmd_elementOffset = elementsIndex (mesh (dynamics ! j)),
               cmd_vertexOffset = verticesIndex (mesh (dynamics ! j)),
               cmd_baseInstance =
                 of_nat (sum_list (map (\<lambda>mi. length (instances mi)) (take j dynamics)))\<rparr>)"
  using assms
  by (simp add: expectedCommands_def length_withBases nth_enumerate_eq withBases_nth)

text \<open>
  Claim C3, as amended. For every scene with fewer than \<open>2^32\<close> dynamic instances and
  every run of \<open>updateDynamicObjects\<close>, in either threading mode: one draw command is
  stored per entry of \<open>m_dynamics\<close>, at the entry's position, with the entry's instance
  count and with a base instance equal to the sum of the instance counts of the entries
  before it; the instance ranges of the commands, in order, make up \<open>[0, total)\<close> without
  gap or overlap; the transform and the material identifier of every instance are stored
  once, and the element indices used for the instances of each entry are exactly the
  instance range of that entry's command.
\<close>

theorem draw_command_ranges_tile:
  assumes run: "(base, stores) \<in> dynamicObjectStores byId toModelTransform materials this"
    and fits: "totalDynamicInstances (m_dynamics this) < 2 ^ 32"
  shows "length (commandsOf stores) = length (m_dynamics this)
       \<and> (\<forall>j < length (m_dynamics this).
            commandsOf stores ! j
              = (of_nat j,
                 \<lparr>cmd_elementCount = elementCount (mesh (m_dynamics this ! j)),
                  cmd_instanceCount = of_nat (length (instances (m_dynamics this ! j))),
                  cmd_elementOffset = elementsIndex (mesh (m_dynamics this ! j)),
                  cmd_vertexOffset = verticesIndex (mesh (m_dynamics this ! j)),
                  cmd_baseInstance =
                    of_nat (sum_list (map (\<lambda>mi. length (instances mi))
                                        (take j (m_dynamics this))))\<rparr>))
       \<and> concat (map (instanceRange \<circ> snd) (commandsOf stores))
           = [0 ..< totalDynamicInstances (m_dynamics this)]
       \<and> transformsOf stores
           = expectedInstanceData (\<lambda>id. toModelTransform (getTransformationMatrix (byId id)))
               (m_dynamics this)
       \<and> materialIDsOf stores
           = expectedInstanceData (\<lambda>id. materials (getMaterialId (byId id))) (m_dynamics this)
       \<and> map fst (transformsOf stores) = concat (instanceIndices (m_dynamics this))
       \<and> map fst (materialIDsOf stores) = concat (instanceIndices (m_dynamics this))
       \<and> map (map unat) (instanceIndices (m_dynamics this))
           = map (instanceRange \<circ> snd) (commandsOf stores)"
proof -
  note ch = stores_characterised[OF run]
  have cmds: "commandsOf stores = expectedCommands (m_dynamics this)" using ch by simp
  have len: "length (commandsOf stores) = length (m_dynamics this)"
    by (simp add: cmds expectedCommands_def length_withBases)
  have tile: "concat (map (instanceRange \<circ> snd) (commandsOf stores))
           = [0 ..< totalDynamicInstances (m_dynamics this)]"
    using ranges_tile[of 0 "m_dynamics this"] by (simp add: cmds expected_ranges[OF fits])
  have inside: "map (map unat) (instanceIndices (m_dynamics this))
           = map (instanceRange \<circ> snd) (commandsOf stores)"
    by (simp add: cmds expected_ranges[OF fits] expected_indices[OF fits])
  show ?thesis
    using ch len tile inside
    by (simp add: expectedCommands_nth expectedInstanceData_indices)
qed

lemma length_crowd: "length crowd = 4294967296"
  by (simp only: crowd_def length_replicate)

lemma crowd_dynamics:
  "m_dynamics crowded_renderer
     = [\<lparr>mesh = \<lparr>verticesIndex = 0, elementsIndex = 0, elementCount = 36\<rparr>, instances = crowd\<rparr>]"
  by (simp add: crowded_renderer_def)

lemma crowd_total: "totalDynamicInstances (m_dynamics crowded_renderer) = 4294967296"
  by (simp add: crowd_dynamics totalDynamicInstances_def length_crowd)

text \<open>
  Claim C3, counterexample to the claim as stated: a scene with one dynamic mesh of
  \<open>2^32\<close> instances. \<open>static_cast<GLuint>\<close> truncates the instance count of its draw
  command to 0, so the command's range is empty and \<open>baseInstance\<close> ends at 0, while
  \<open>2^32\<close> transforms are stored.
\<close>

theorem instance_count_truncated_counterexample:
  "totalDynamicInstances (m_dynamics crowded_renderer) = 4294967296
   \<and> (\<lambda>(base, stores). (base, commandsOf stores, length (transformsOf stores),
                          concat (map (instanceRange \<circ> snd) (commandsOf stores))))
       ` dynamicObjectStores numbered_instance (\<lambda>m. m) (\<lambda>k. k) crowded_renderer
     = {(0, [(0, \<lparr>cmd_elementCount = 36, cmd_instanceCount = 0, cmd_elementOffset = 0,
                   cmd_vertexOffset = 0, cmd_baseInstance = 0\<rparr>)], 4294967296, [])}"
proof (intro conjI)
  show "totalDynamicInstances (m_dynamics crowded_renderer) = 4294967296"
    by (rule crowd_total)
  have zero: "(of_nat 4294967296 :: GLuint) = 0" by simp
  have cmds: "expectedCommands (m_dynamics crowded_renderer)
        = [(0, \<lparr>cmd_elementCount = 36, cmd_instanceCount = 0, cmd_elementOffset = 0,
                 cmd_vertexOffset = 0, cmd_baseInstance = 0\<rparr>)]"
    by (simp add: crowd_dynamics expectedCommands_def length_crowd)
  have len: "\<And>v :: InstanceId \<Rightarrow> nat.
      length (expectedInstanceData v (m_dynamics crowded_renderer)) = 4294967296"
    by (simp add: crowd_dynamics expectedInstanceData_def length_crowd)
  show "(\<lambda>(base, stores). (base, commandsOf stores, length (transformsOf stores),
                          concat (map (instanceRange \<circ> snd) (commandsOf stores))))
       ` dynamicObjectStores numbered_instance (\<lambda>m. m) (\<lambda>k. k) crowded_renderer
     = {(0, [(0, \<lparr>cmd_elementCount = 36, cmd_instanceCount = 0, cmd_elementOffset = 0,
                   cmd_vertexOffset = 0, cmd_baseInstance = 0\<rparr>)], 4294967296, [])}"
  proof (rule const_image[OF stores_nonempty])
    fix x assume x: "x \<in> dynamicObjectStores numbered_instance (\<lambda>m. m) (\<lambda>k. k) crowded_renderer"
    obtain base ws where bw: "x = (base, ws)" by (cases x)
    show "(case x of (base, stores) \<Rightarrow> (base, commandsOf stores, length (transformsOf stores),
                          concat (map (instanceRange \<circ> snd) (commandsOf stores))))
          = (0, [(0, \<lparr>cmd_elementCount = 36, cmd_instanceCount = 0, cmd_elementOffset = 0,
                   cmd_vertexOffset = 0, cmd_baseInstance = 0\<rparr>)], 4294967296, [])"
      using stores_characterised[of base ws numbered_instance "\<lambda>m. m" "\<lambda>k. k" crowded_renderer]
        x bw
      by (simp add: cmds len crowd_total instanceRange_def)
  qed
qed

lemmas walk_eval =
  forEachDynamicMeshInstance_def forEachDynamicMesh_def withCounter_def
  addTransformAndMaterialID_def addTransform_def addMaterialID_def addDrawCommand_def Let_def
  numbered_instance_def

text \<open>
  Claim C3, witness: two meshes with five and two instances.
\<close>

theorem draw_command_ranges_tile_witness:
  "(7, two_meshes_stores) \<in> dynamicObjectStores numbered_instance (\<lambda>m. m) (\<lambda>k. k) two_meshes
   \<and> totalDynamicInstances (m_dynamics two_meshes) = 7
   \<and> (7 :: nat) < 2 ^ 32
   \<and> commandsOf two_meshes_stores
       = [(0, \<lparr>cmd_elementCount = 36, cmd_instanceCount = 5, cmd_elementOffset = 0,
                cmd_vertexOffset = 0, cmd_baseInstance = 0\<rparr>),
          (1, \<lparr>cmd_elementCount = 24, cmd_instanceCount = 2, cmd_elementOffset = 36,
                cmd_vertexOffset = 24, cmd_baseInstance = 5\<rparr>)]
   \<and> concat (map (instanceRange \<circ> snd) (commandsOf two_meshes_stores)) = [0 ..< 7]
   \<and> map (map unat) (instanceIndices (m_dynamics two_meshes))
       = map (instanceRange \<circ> snd) (commandsOf two_meshes_stores)"
proof -
  have mem: "(7, two_meshes_stores)
               \<in> dynamicObjectStores numbered_instance (\<lambda>m. m) (\<lambda>k. k) two_meshes"
    by (simp add: dynamicObjectStores_def two_meshes_def Renderer_default_def walk_eval
        two_meshes_stores_def)
  have tot: "totalDynamicInstances (m_dynamics two_meshes) = 7"
    by (simp add: two_meshes_def totalDynamicInstances_def)
  have fits: "totalDynamicInstances (m_dynamics two_meshes) < 2 ^ 32"
    by (simp add: tot)
  have cmds: "commandsOf two_meshes_stores
       = [(0, \<lparr>cmd_elementCount = 36, cmd_instanceCount = 5, cmd_elementOffset = 0,
                cmd_vertexOffset = 0, cmd_baseInstance = 0\<rparr>),
          (1, \<lparr>cmd_elementCount = 24, cmd_instanceCount = 2, cmd_elementOffset = 36,
                cmd_vertexOffset = 24, cmd_baseInstance = 5\<rparr>)]"
    by (simp add: two_meshes_stores_def)
  from draw_command_ranges_tile [OF mem fits]
  have tile: "concat (map (instanceRange \<circ> snd) (commandsOf two_meshes_stores))
                = [0 ..< totalDynamicInstances (m_dynamics two_meshes)]"
    and inside: "map (map unat) (instanceIndices (m_dynamics two_meshes))
                   = map (instanceRange \<circ> snd) (commandsOf two_meshes_stores)"
    by blast+
  show ?thesis
    by (intro conjI mem tot cmds tile[unfolded tot] inside) simp
qed


end
